theory Spec2Isabelle
  imports Complex_Main
begin


section \<open>Orchestrator side: the MCP client wrapper and the agentic loop\<close>

text \<open>
  The TypeScript of \<^verbatim>\<open>mcp-client.server.ts\<close> and \<^verbatim>\<open>gemini-client.server.ts\<close>.
  Thrown JavaScript errors are values: a function that may throw returns
  \<open>string + 'a\<close>, with \<open>Inl\<close> carrying the rendering \<^verbatim>\<open>String(error)\<close> of what was thrown
  (or the message of an \<^verbatim>\<open>Error\<close> the code itself throws).
\<close>

subsection \<open>Data\<close>

datatype json =
  JNull | JBool bool | JNum rat | JStr string | JArr "json list" | JObj "(string \<times> json) list"

text \<open>One element of \<^verbatim>\<open>McpToolResult.content\<close>: an object \<^verbatim>\<open>{type, text?, [key]: any}\<close>.\<close>

type_synonym content_item = "(string \<times> json) list"

record McpToolResult =
  content :: "content_item list"
  isError :: "bool option"

record McpTool =
  mcp_name :: string
  mcp_description :: string

datatype Role = RoleUser | RoleAssistant | RoleModel

record Message =
  role :: Role
  msg_content :: string

record ChatRequest =
  messages :: "Message list"
  systemPrompt :: "string option"
  maxToolCalls :: "int option"

record ToolCallRecord =
  rec_name :: string
  rec_input :: json
  rec_result :: "content_item option"
  durationMs :: int

record Usage =
  inputTokens :: nat
  outputTokens :: nat
  totalTokens :: nat

record ChatResponse =
  message :: string
  toolCalls :: "ToolCallRecord list"
  usage :: Usage
  iterations :: int

text \<open>The Gemini SDK's types, as far as the loop reads them.\<close>

record FunctionCall =
  fc_name :: string
  fc_args :: "json option"

datatype Part =
  TextPart string
  | FunctionCallPart "FunctionCall option"
  | FunctionResponsePart string "content_item option"
  | OtherPart

datatype GeminiRole = GeminiUser | GeminiModel

record Content =
  content_role :: GeminiRole
  parts :: "Part list"

record Candidate =
  candidate_parts :: "Part list option"
  finishReason :: string

record UsageMetadata =
  promptTokenCount :: "nat option"
  candidatesTokenCount :: "nat option"

record GenerateContentResponse =
  candidates :: "Candidate list option"
  usageMetadata :: "UsageMetadata option"

text \<open>\<^verbatim>\<open>let currentMessage: string | Part[]\<close>\<close>

datatype ChatInput = TextInput string | PartsInput "Part list"

text \<open>
  The chat object returned by \<^verbatim>\<open>model.startChat({ history })\<close>: the model was configured
  with the system instruction and the tools discovered for this run.
\<close>

record ChatSession =
  systemInstruction :: "string option"
  chat_tools :: "McpTool list"
  chat_history :: "Content list"

text \<open>
  Everything outside the two modules is a collaborator of the run: tool discovery, the
  model behind \<^verbatim>\<open>chat.sendMessage\<close> (a function of the session and of all messages sent
  on it so far, the current one last), and for the tool call at index \<open>i\<close> of iteration
  \<open>it\<close>: what \<^verbatim>\<open>await getMcpClient()\<close> gives, what \<^verbatim>\<open>client.callTool\<close> gives, the
  measured \<^verbatim>\<open>Date.now() - startTime\<close>, and the moment at which the call settles
  (\<open>finish_rank\<close>; calls of one turn settle in the order of their ranks).
\<close>

record Env =
  listMcpTools :: "string + McpTool list"
  sendMessage :: "ChatSession \<Rightarrow> ChatInput list \<Rightarrow> string + GenerateContentResponse"
  getMcpClient_at :: "int \<Rightarrow> nat \<Rightarrow> string + nat"
  client_callTool :: "int \<Rightarrow> nat \<Rightarrow> nat \<Rightarrow> string \<Rightarrow> json \<Rightarrow> string + McpToolResult"
  elapsedMs :: "int \<Rightarrow> nat \<Rightarrow> int"
  finish_rank :: "int \<Rightarrow> nat \<Rightarrow> nat"

record LoopState =
  currentMessage :: ChatInput
  toolCallRecords :: "ToolCallRecord list"
  totalInputTokens :: nat
  totalOutputTokens :: nat
  iterationCount :: int
  sentMessages :: "ChatInput list"

subsection \<open>callMcpTool\<close>

text \<open>
  \<^verbatim>\<open>await getMcpClient()\<close> stands before the \<^verbatim>\<open>try\<close>: its failure is thrown on. A failure of
  \<^verbatim>\<open>client.callTool\<close> is caught and returned in MCP format.
\<close>

definition failed_item :: "string \<Rightarrow> content_item" where
  "failed_item error =
     [(''type'', JStr ''text''), (''text'', JStr (''Tool execution failed: '' @ error))]"

definition callMcpTool ::
  "(string + nat) \<Rightarrow> (nat \<Rightarrow> string \<Rightarrow> json \<Rightarrow> string + McpToolResult) \<Rightarrow> string \<Rightarrow> json
     \<Rightarrow> string + McpToolResult" where
  "callMcpTool got callTool toolName args =
     (case got of
        Inl err \<Rightarrow> Inl err
      | Inr client \<Rightarrow>
          (case callTool client toolName args of
             Inr result \<Rightarrow> Inr result
           | Inl error \<Rightarrow>
               Inr \<lparr>content = [failed_item error], isError = Some True\<rparr>))"

subsection \<open>One turn of tool calls\<close>

text \<open>\<^verbatim>\<open>xs[0]\<close>: \<^verbatim>\<open>undefined\<close> on an empty array.\<close>

fun first_item :: "'a list \<Rightarrow> 'a option" where
  "first_item [] = None"
| "first_item (x # xs) = Some x"

text \<open>
  The body of the \<^verbatim>\<open>async (part) => ...\<close> callback for a part that carries a function
  call: the record it pushes and the part it resolves to, or the error of
  \<^verbatim>\<open>callMcpTool\<close>.
\<close>

definition run_call :: "Env \<Rightarrow> int \<Rightarrow> nat \<Rightarrow> FunctionCall \<Rightarrow> string + (ToolCallRecord \<times> Part)" where
  "run_call env it i functionCall =
     (let functionName = fc_name functionCall;
          functionArgs = (case fc_args functionCall of None \<Rightarrow> JObj [] | Some a \<Rightarrow> a)
      in case callMcpTool (getMcpClient_at env it i) (client_callTool env it i)
                functionName functionArgs of
           Inl err \<Rightarrow> Inl err
         | Inr mcpResult \<Rightarrow>
             Inr (\<lparr>rec_name = functionName, rec_input = functionArgs,
                   rec_result = first_item (content mcpResult),
                   durationMs = elapsedMs env it i\<rparr>,
                  FunctionResponsePart functionName (first_item (content mcpResult))))"

fun callback :: "Env \<Rightarrow> int \<Rightarrow> nat \<Rightarrow> Part \<Rightarrow> string + (ToolCallRecord \<times> Part)" where
  "callback env it i (FunctionCallPart (Some functionCall)) = run_call env it i functionCall"
| "callback env it i p = Inl ''Expected functionCall in part''"

fun throws_at_once :: "Part \<Rightarrow> bool" where
  "throws_at_once (FunctionCallPart (Some functionCall)) = False"
| "throws_at_once p = True"

text \<open>The order in which the \<open>n\<close> calls of a turn settle: by rank, ties in request order.\<close>

definition completion_order :: "(nat \<Rightarrow> nat) \<Rightarrow> nat \<Rightarrow> nat list" where
  "completion_order rank n = sort_key rank [0..<n]"

text \<open>
  \<^verbatim>\<open>Promise.all\<close> over the callbacks. As the call at index \<open>i\<close> settles, its callback pushes
  its record onto \<^verbatim>\<open>toolCallRecords\<close> and its promise fulfils with its part, which
  \<^verbatim>\<open>Promise.all\<close> stores at index \<open>i\<close> of the result; the first rejection rejects the
  whole.
\<close>

fun settle ::
  "nat list \<Rightarrow> (string + (ToolCallRecord \<times> Part)) list \<Rightarrow> ToolCallRecord list \<times> Part option list
     \<Rightarrow> string + (ToolCallRecord list \<times> Part option list)" where
  "settle [] outcomes acc = Inr acc"
| "settle (i # order) outcomes (records, slots) =
     (case outcomes ! i of
        Inl err \<Rightarrow> Inl err
      | Inr (record, response) \<Rightarrow>
          settle order outcomes (records @ [record], slots[i := Some response]))"

definition filled :: "'a option list \<Rightarrow> 'a list" where
  "filled slots = concat (map (\<lambda>slot. case slot of None \<Rightarrow> [] | Some v \<Rightarrow> [v]) slots)"

definition execute_function_calls ::
  "Env \<Rightarrow> int \<Rightarrow> Part list \<Rightarrow> ToolCallRecord list \<Rightarrow> string + (ToolCallRecord list \<times> Part list)" where
  "execute_function_calls env it functionCalls records =
     (if list_ex throws_at_once functionCalls then Inl ''Expected functionCall in part''
      else
        (case settle (completion_order (finish_rank env it) (length functionCalls))
                (map (\<lambda>(i, p). callback env it i p) (enumerate 0 functionCalls))
                (records, replicate (length functionCalls) None) of
           Inl err \<Rightarrow> Inl err
         | Inr (records', slots) \<Rightarrow> Inr (records', filled slots)))"

subsection \<open>sendMessageToGemini\<close>

fun is_functionCall :: "Part \<Rightarrow> bool" where
  "is_functionCall (FunctionCallPart fc) = True"
| "is_functionCall p = False"

fun is_text :: "Part \<Rightarrow> bool" where
  "is_text (TextPart t) = True"
| "is_text p = False"

fun part_text :: "Part \<Rightarrow> string" where
  "part_text (TextPart t) = t"
| "part_text p = ''''"

fun join :: "string \<Rightarrow> string list \<Rightarrow> string" where
  "join sep [] = ''''"
| "join sep [x] = x"
| "join sep (x # y # ys) = x @ sep @ join sep (y # ys)"

text \<open>\<^verbatim>\<open>response.candidates?.[0]\<close>\<close>

definition first_candidate :: "GenerateContentResponse \<Rightarrow> Candidate option" where
  "first_candidate response =
     (case candidates response of None \<Rightarrow> None | Some cs \<Rightarrow> first_item cs)"

text \<open>\<^verbatim>\<open>x || 0\<close>\<close>

definition or_zero :: "nat option \<Rightarrow> nat" where
  "or_zero x = (case x of None \<Rightarrow> 0 | Some n \<Rightarrow> n)"

definition track_usage :: "GenerateContentResponse \<Rightarrow> LoopState \<Rightarrow> LoopState" where
  "track_usage response st =
     (case usageMetadata response of
        None \<Rightarrow> st
      | Some u \<Rightarrow>
          st\<lparr>totalInputTokens := totalInputTokens st + or_zero (promptTokenCount u),
             totalOutputTokens := totalOutputTokens st + or_zero (candidatesTokenCount u)\<rparr>)"

definition usage_of :: "LoopState \<Rightarrow> Usage" where
  "usage_of st =
     \<lparr>inputTokens = totalInputTokens st, outputTokens = totalOutputTokens st,
      totalTokens = totalInputTokens st + totalOutputTokens st\<rparr>"

definition no_candidate_message :: string where
  "no_candidate_message = ''I apologize, but I was unable to generate a response.''"

definition default_final_message :: string where
  "default_final_message = ''I have processed your request.''"

definition limit_message :: string where
  "limit_message =
     ''I've been working on your request but reached my limit for tool calls. '' @
     ''Here is what I found so far. Please try a more specific question.''"

definition respond :: "string \<Rightarrow> LoopState \<Rightarrow> ChatResponse" where
  "respond text st =
     \<lparr>message = text, toolCalls = toolCallRecords st, usage = usage_of st,
      iterations = iterationCount st\<rparr>"

definition final_text :: "Part list \<Rightarrow> string" where
  "final_text textParts =
     (let textContent = join [CHR 0x0A, CHR 0x0A] (map part_text textParts)
      in if textContent = [] then default_final_message else textContent)"

text \<open>
  The \<^verbatim>\<open>while (iterations < maxToolCalls)\<close> loop and the return after it. The result
  pairs what the function returns or throws with the messages that were sent to the
  model, one per round-trip.
\<close>

function agentic_loop ::
  "Env \<Rightarrow> ChatSession \<Rightarrow> int \<Rightarrow> LoopState \<Rightarrow> (string + ChatResponse) \<times> ChatInput list" where
  "agentic_loop env chat maxCalls st =
     (if iterationCount st < maxCalls then
        (let st1 = st\<lparr>iterationCount := iterationCount st + 1,
                      sentMessages := sentMessages st @ [currentMessage st]\<rparr>
         in case sendMessage env chat (sentMessages st1) of
              Inl err \<Rightarrow> (Inl err, sentMessages st1)
            | Inr response \<Rightarrow>
                (let st2 = track_usage response st1
                 in case first_candidate response of
                      None \<Rightarrow> (Inr (respond no_candidate_message st2), sentMessages st2)
                    | Some candidate \<Rightarrow>
                        (let ps = (case candidate_parts candidate of None \<Rightarrow> [] | Some ps \<Rightarrow> ps);
                             functionCalls = filter is_functionCall ps;
                             textParts = filter is_text ps
                         in if length functionCalls = 0 then
                              (Inr (respond (final_text textParts) st2), sentMessages st2)
                            else
                              (case execute_function_calls env (iterationCount st2)
                                      functionCalls (toolCallRecords st2) of
                                 Inl err \<Rightarrow> (Inl err, sentMessages st2)
                               | Inr (records, functionResponses) \<Rightarrow>
                                   agentic_loop env chat maxCalls
                                     (st2\<lparr>toolCallRecords := records,
                                          currentMessage := PartsInput functionResponses\<rparr>)))))
      else (Inr (respond limit_message st), sentMessages st))"
  by pat_completeness auto
termination
proof (relation "measure (\<lambda>(env, chat, maxCalls, st). nat (maxCalls - iterationCount st))")
  show "wf (measure (\<lambda>(env, chat, maxCalls, st). nat (maxCalls - iterationCount st)))"
    by simp
next
  fix env :: Env and chat :: ChatSession and maxCalls :: int and st st1 :: LoopState
    and response st2 records functionResponses
  assume "iterationCount st < maxCalls"
    and "st1 = st\<lparr>iterationCount := iterationCount st + 1,
                    sentMessages := sentMessages st @ [currentMessage st]\<rparr>"
    and "st2 = track_usage response st1"
  then show "((env, chat, maxCalls,
                st2\<lparr>toolCallRecords := records, currentMessage := PartsInput functionResponses\<rparr>),
               env, chat, maxCalls, st)
             \<in> measure (\<lambda>(env, chat, maxCalls, st). nat (maxCalls - iterationCount st))"
    by (simp add: track_usage_def split: option.splits)
qed

definition to_content :: "Message \<Rightarrow> Content" where
  "to_content msg =
     \<lparr>content_role = (if role msg = RoleAssistant \<or> role msg = RoleModel then GeminiModel
                       else GeminiUser),
      parts = [TextPart (msg_content msg)]\<rparr>"

text \<open>\<^verbatim>\<open>messages[messages.length - 1]\<close>: \<^verbatim>\<open>undefined\<close> on an empty array.\<close>

definition last_item :: "'a list \<Rightarrow> 'a option" where
  "last_item xs = (if xs = [] then None else Some (last xs))"

text \<open>
  \<^verbatim>\<open>genAI.getGenerativeModel({...}).startChat({ history })\<close>, the history being
  \<^verbatim>\<open>messages.slice(0, -1)\<close> converted. A request without \<^verbatim>\<open>systemPrompt\<close> stands for the
  default prompt; the function declarations are a function of the tools discovered.
\<close>

definition startChat :: "string option \<Rightarrow> McpTool list \<Rightarrow> Message list \<Rightarrow> ChatSession" where
  "startChat prompt mcpTools msgs =
     \<lparr>systemInstruction = prompt, chat_tools = mcpTools,
      chat_history = map to_content (butlast msgs)\<rparr>"

definition initial_state :: "Message \<Rightarrow> LoopState" where
  "initial_state latestMessage =
     \<lparr>currentMessage = TextInput (msg_content latestMessage), toolCallRecords = [],
      totalInputTokens = 0, totalOutputTokens = 0, iterationCount = 0, sentMessages = []\<rparr>"

definition maxCalls_of :: "ChatRequest \<Rightarrow> int" where
  "maxCalls_of request = (case maxToolCalls request of None \<Rightarrow> 10 | Some m \<Rightarrow> m)"

definition run_chat :: "Env \<Rightarrow> ChatRequest \<Rightarrow> (string + ChatResponse) \<times> ChatInput list" where
  "run_chat env request =
     (case listMcpTools env of
        Inl err \<Rightarrow> (Inl err, [])
      | Inr mcpTools \<Rightarrow>
          (case last_item (messages request) of
             None \<Rightarrow> (Inl ''Last message must be from user'', [])
           | Some latestMessage \<Rightarrow>
               if role latestMessage \<noteq> RoleUser
               then (Inl ''Last message must be from user'', [])
               else agentic_loop env
                      (startChat (systemPrompt request) mcpTools (messages request))
                      (maxCalls_of request) (initial_state latestMessage)))"

definition sendMessageToGemini :: "Env \<Rightarrow> ChatRequest \<Rightarrow> string + ChatResponse" where
  "sendMessageToGemini env request = fst (run_chat env request)"

definition model_round_trips :: "Env \<Rightarrow> ChatRequest \<Rightarrow> nat" where
  "model_round_trips env request = length (snd (run_chat env request))"

subsection \<open>Observing a run\<close>

text \<open>What the model answered to the last of the messages \<open>sent\<close>, as the loop reads it.\<close>

datatype Reply =
  ModelThrew string | NoCandidate | FinalAnswer "Part list" | ToolsRequested "Part list"

definition reply_to :: "Env \<Rightarrow> ChatSession \<Rightarrow> ChatInput list \<Rightarrow> Reply" where
  "reply_to env chat sent =
     (case sendMessage env chat sent of
        Inl err \<Rightarrow> ModelThrew err
      | Inr response \<Rightarrow>
          (case first_candidate response of
             None \<Rightarrow> NoCandidate
           | Some candidate \<Rightarrow>
               (let ps = (case candidate_parts candidate of None \<Rightarrow> [] | Some ps \<Rightarrow> ps)
                in if filter is_functionCall ps = [] then FinalAnswer (filter is_text ps)
                   else ToolsRequested (filter is_functionCall ps))))"

fun requested :: "Reply \<Rightarrow> Part list" where
  "requested (ToolsRequested cs) = cs"
| "requested r = []"

text \<open>The loop's variables after the model has answered the current message.\<close>

definition next_state :: "Env \<Rightarrow> ChatSession \<Rightarrow> LoopState \<Rightarrow> LoopState" where
  "next_state env chat st =
     (let st1 = st\<lparr>iterationCount := iterationCount st + 1,
                   sentMessages := sentMessages st @ [currentMessage st]\<rparr>
      in case sendMessage env chat (sentMessages st1) of
           Inl err \<Rightarrow> st1
         | Inr response \<Rightarrow> track_usage response st1)"

text \<open>The session of a run, and the number of function calls the model requested in it.\<close>

definition chat_of :: "Env \<Rightarrow> ChatRequest \<Rightarrow> ChatSession" where
  "chat_of env request =
     startChat (systemPrompt request)
       (case listMcpTools env of Inl err \<Rightarrow> [] | Inr mcpTools \<Rightarrow> mcpTools) (messages request)"

definition requested_total :: "Env \<Rightarrow> ChatSession \<Rightarrow> ChatInput list \<Rightarrow> nat" where
  "requested_total env chat sent =
     (\<Sum>k = 0..<length sent. length (requested (reply_to env chat (take (Suc k) sent))))"

text \<open>
  The premises under which a run reaches the loop and no collaborator throws in it: tool
  discovery succeeded, the history ends with a user message, the connection to the tool
  host is there for every call, the model call returns, and every function-call part
  carries its call.
\<close>

definition starts :: "Env \<Rightarrow> ChatRequest \<Rightarrow> bool" where
  "starts env request =
     ((\<exists>mcpTools. listMcpTools env = Inr mcpTools) \<and>
      (\<exists>latestMessage. last_item (messages request) = Some latestMessage \<and>
          role latestMessage = RoleUser))"

definition collaborators_return :: "Env \<Rightarrow> ChatSession \<Rightarrow> bool" where
  "collaborators_return env chat =
     ((\<forall>sent err. sendMessage env chat sent \<noteq> Inl err) \<and>
      (\<forall>sent. \<not> list_ex throws_at_once (requested (reply_to env chat sent))) \<and>
      (\<forall>it i. \<exists>client. getMcpClient_at env it i = Inr client))"


text \<open>A record result of the shape \<^verbatim>\<open>{error: true, message}\<close>.\<close>

definition error_shaped :: "content_item option \<Rightarrow> bool" where
  "error_shaped res =
     (case res of
        None \<Rightarrow> False
      | Some obj \<Rightarrow> map_of obj ''error'' = Some (JBool True) \<and> map_of obj ''message'' \<noteq> None)"

subsection \<open>Scenarios\<close>

definition refund_call :: Part where
  "refund_call = FunctionCallPart (Some \<lparr>fc_name = ''refund_order'', fc_args = None\<rparr>)"

definition tools_reply :: "Part list \<Rightarrow> GenerateContentResponse" where
  "tools_reply ps =
     \<lparr>candidates = Some [\<lparr>candidate_parts = Some ps, finishReason = ''STOP''\<rparr>],
      usageMetadata = None\<rparr>"

text \<open>A model that requests a refund on every turn, and a tool host whose calls time out.\<close>

definition tool_loop_env :: Env where
  "tool_loop_env =
     \<lparr>listMcpTools = Inr [\<lparr>mcp_name = ''refund_order'', mcp_description = ''Refund''\<rparr>],
      sendMessage = (\<lambda>chat sent. Inr (tools_reply [refund_call])),
      getMcpClient_at = (\<lambda>it i. Inr 0),
      client_callTool = (\<lambda>it i client toolName args. Inl ''Error: Request timed out''),
      elapsedMs = (\<lambda>it i. 7),
      finish_rank = (\<lambda>it i. 0)\<rparr>"

definition user_request :: "int option \<Rightarrow> ChatRequest" where
  "user_request limit =
     \<lparr>messages = [\<lparr>role = RoleUser, msg_content = ''refund order 1001''\<rparr>],
      systemPrompt = None, maxToolCalls = limit\<rparr>"


definition call_of :: "string \<Rightarrow> Part" where
  "call_of toolName = FunctionCallPart (Some \<lparr>fc_name = toolName, fc_args = None\<rparr>)"

definition echo_item :: "string \<Rightarrow> content_item" where
  "echo_item toolName = [(''type'', JStr ''text''), (''text'', JStr toolName)]"

text \<open>
  A model that requests the calls A and B, in this order, on the first turn and answers
  with text afterwards; a tool host that answers each call with the tool's name; B
  completes before A.
\<close>

definition two_calls_env :: Env where
  "two_calls_env =
     \<lparr>listMcpTools = Inr [],
      sendMessage = (\<lambda>chat sent.
         if length sent = 1 then Inr (tools_reply [call_of ''A'', call_of ''B''])
         else Inr (tools_reply [TextPart ''done''])),
      getMcpClient_at = (\<lambda>it i. Inr 0),
      client_callTool = (\<lambda>it i client toolName args.
         Inr \<lparr>content = [echo_item toolName], isError = None\<rparr>),
      elapsedMs = (\<lambda>it i. 40 - 10 * int i),
      finish_rank = (\<lambda>it i. 1 - i)\<rparr>"

definition two_calls_sent :: "ChatInput list" where
  "two_calls_sent =
     [TextInput ''refund order 1001'',
      PartsInput [FunctionResponsePart ''A'' (Some (echo_item ''A'')),
                  FunctionResponsePart ''B'' (Some (echo_item ''B''))]]"

definition two_calls_response :: ChatResponse where
  "two_calls_response =
     \<lparr>message = ''done'',
      toolCalls =
        [\<lparr>rec_name = ''B'', rec_input = JObj [], rec_result = Some (echo_item ''B''),
          durationMs = 30\<rparr>,
         \<lparr>rec_name = ''A'', rec_input = JObj [], rec_result = Some (echo_item ''A''),
          durationMs = 40\<rparr>],
      usage = \<lparr>inputTokens = 0, outputTokens = 0, totalTokens = 0\<rparr>,
      iterations = 2\<rparr>"

definition timed_out_record :: ToolCallRecord where
  "timed_out_record =
     \<lparr>rec_name = ''refund_order'', rec_input = JObj [],
      rec_result = Some (failed_item ''Error: Request timed out''), durationMs = 7\<rparr>"

definition timed_out_response :: Part where
  "timed_out_response =
     FunctionResponsePart ''refund_order'' (Some (failed_item ''Error: Request timed out''))"

definition empty_request :: ChatRequest where
  "empty_request = \<lparr>messages = [], systemPrompt = None, maxToolCalls = None\<rparr>"

section \<open>Tool host side: the Rails controllers\<close>

text \<open>
  The Ruby of \<^verbatim>\<open>streams_controller.rb\<close>, \<^verbatim>\<open>tools_controller.rb\<close> and \<^verbatim>\<open>routes.rb\<close>. A method
  that may raise returns \<open>Exn + 'a\<close>, with \<open>Inl\<close> the exception that leaves it.
\<close>

subsection \<open>Ruby exceptions, presence, the response stream\<close>

text \<open>
  The exception classes the rescue clauses tell apart.
  \<^verbatim>\<open>ActionController::Live::ClientDisconnected\<close> and \<^verbatim>\<open>Timeout::Error\<close> are RuntimeErrors,
  \<^verbatim>\<open>IOError\<close> is a StandardError; \<open>NotStandardError\<close> stands for the classes outside
  StandardError (NotImplementedError and the other ScriptErrors, NoMemoryError,
  SystemStackError, SignalException, SystemExit).
\<close>

datatype ExnClass =
  ClientDisconnected | TimeoutError | IOError | OtherStandardError | NotStandardError

record Exn =
  exn_class :: ExnClass
  exn_class_name :: string
  exn_message :: string
  exn_backtrace :: "string list"

fun is_StandardError :: "ExnClass \<Rightarrow> bool" where
  "is_StandardError NotStandardError = False"
| "is_StandardError c = True"

text \<open>
  \<^verbatim>\<open>x.present?\<close> of a header or environment value: not \<^verbatim>\<open>nil\<close> and not blank, a string being
  blank when it is empty or white space only (strings are byte strings here: the white
  space of ASCII).
\<close>

definition whitespace :: "char \<Rightarrow> bool" where
  "whitespace c = (c \<in> set [CHR '' '', CHR 0x09, CHR 0x0A, CHR 0x0B, CHR 0x0C, CHR 0x0D])"

definition blank :: "string \<Rightarrow> bool" where
  "blank s = list_all whitespace s"

fun present :: "string option \<Rightarrow> bool" where
  "present None = False"
| "present (Some s) = (\<not> blank s)"

text \<open>
  One frame of the event stream (\<^verbatim>\<open>id:\<close>, \<^verbatim>\<open>event:\<close> and \<^verbatim>\<open>data:\<close> lines, then an empty line),
  and \<^verbatim>\<open>response.stream\<close>: the frames written, whether it is closed, and how often
  \<^verbatim>\<open>close\<close> was carried out on it. A write to a closed stream raises IOError; a write to an
  open stream appends the frame (a client that has gone shows as ClientDisconnected raised
  by the protocol handler).
\<close>

record SseEvent =
  event_id :: "string option"
  event_name :: "string option"
  event_data :: json

record LiveStream =
  frames :: "SseEvent list"
  stream_closed :: bool
  close_calls :: nat

definition stream_write :: "LiveStream \<Rightarrow> SseEvent \<Rightarrow> string + LiveStream" where
  "stream_write s frame =
     (if stream_closed s then Inl ''closed stream'' else Inr (s\<lparr>frames := frames s @ [frame]\<rparr>))"

definition stream_close :: "LiveStream \<Rightarrow> LiveStream" where
  "stream_close s = s\<lparr>stream_closed := True, close_calls := close_calls s + 1\<rparr>"

subsection \<open>Requests, responses, the environment\<close>

datatype RailsEnv = Development | Test | Production | OtherEnv string

datatype HttpMethod = GET | POST | OtherMethod string

record Request =
  http_method :: HttpMethod
  path :: "string list"
  headers :: "(string \<times> string) list"
  params :: json

text \<open>A response: \<open>status = None\<close> as long as nothing was rendered.\<close>

record Response =
  status :: "nat option"
  body :: "json option"
  response_headers :: "(string \<times> string) list"
  stream :: LiveStream

record ToolConfig =
  description :: json
  schema_parameters :: "json option"
  tool_class :: json

text \<open>
  What the controllers read from outside: \<^verbatim>\<open>Rails.env\<close>, \<^verbatim>\<open>ENV['MCP_API_KEY']\<close>, the FastMcp
  registry and its execution of tools and resource queries, and \<^verbatim>\<open>Time.current.iso8601\<close>.
\<close>

record ServerEnv =
  rails_env :: RailsEnv
  MCP_API_KEY :: "string option"
  fast_mcp_tools :: "(string \<times> ToolConfig) list"
  execute_tool :: "string \<Rightarrow> json \<Rightarrow> Exn + json"
  query_resource :: "string \<Rightarrow> json \<Rightarrow> Exn + json"
  time_current :: string

definition fresh_response :: Response where
  "fresh_response =
     \<lparr>status = None, body = None, response_headers = [],
      stream = \<lparr>frames = [], stream_closed = False, close_calls = 0\<rparr>\<rparr>"

definition performed :: "Response \<Rightarrow> bool" where
  "performed response = (status response \<noteq> None)"

text \<open>
  The \<^verbatim>\<open>before_action\<close> chain: the callbacks run in the order of their declaration, and
  once one of them has rendered, the chain halts and the action does not run.
\<close>

fun run_callbacks :: "(Response \<Rightarrow> Response) list \<Rightarrow> Response \<Rightarrow> Response \<times> bool" where
  "run_callbacks [] response = (response, False)"
| "run_callbacks (cb # cbs) response =
     (let response' = cb response
      in if performed response' then (response', True) else run_callbacks cbs response')"

subsection \<open>Mcp::StreamsController\<close>

definition unauthorized_body :: json where
  "unauthorized_body =
     JObj [(''error'', JStr ''Unauthorized''),
           (''message'', JStr ''Invalid or missing X-MCP-Api-Key header'')]"

definition authenticate_mcp_client :: "ServerEnv \<Rightarrow> Request \<Rightarrow> Response \<Rightarrow> Response" where
  "authenticate_mcp_client env request response =
     (let api_key = map_of (headers request) ''X-MCP-Api-Key'';
          expected_key = MCP_API_KEY env
      in if present api_key \<and> present expected_key \<and> api_key = expected_key then response
         else response\<lparr>status := Some 401, body := Some unauthorized_body\<rparr>)"

definition set_sse_headers :: "Response \<Rightarrow> Response" where
  "set_sse_headers response =
     response\<lparr>response_headers := response_headers response @
        [(''Content-Type'', ''text/event-stream''), (''Cache-Control'', ''no-cache, no-store''),
         (''X-Accel-Buffering'', ''no''), (''Connection'', ''keep-alive'')]\<rparr>"

definition write_sse_event ::
  "LiveStream \<Rightarrow> string option \<Rightarrow> json \<Rightarrow> string option \<Rightarrow> LiveStream" where
  "write_sse_event s event data ev_id =
     (if stream_closed s then s
      else (case stream_write s \<lparr>event_id = ev_id, event_name = event, event_data = data\<rparr> of
              Inr s' \<Rightarrow> s'
            | Inl io_error \<Rightarrow> s))"

definition tool_error_result :: "string \<Rightarrow> string \<Rightarrow> json" where
  "tool_error_result tool_name msg =
     JObj [(''error'', JStr ''Tool execution failed''), (''tool'', JStr tool_name),
           (''message'', JStr msg)]"

definition handle_tool_call ::
  "ServerEnv \<Rightarrow> LiveStream \<Rightarrow> string \<Rightarrow> json \<Rightarrow> LiveStream \<times> (Exn + json)" where
  "handle_tool_call env s tool_name parameters =
     (case execute_tool env tool_name parameters of
        Inr result \<Rightarrow>
          (write_sse_event s (Some ''tool_result'')
             (JObj [(''tool'', JStr tool_name), (''result'', result),
                    (''timestamp'', JStr (time_current env))]) None,
           Inr result)
      | Inl e \<Rightarrow>
          if is_StandardError (exn_class e) then
            (let error_result = tool_error_result tool_name (exn_message e)
             in (write_sse_event s (Some ''tool_error'') error_result None, Inr error_result))
          else (s, Inl e))"

definition handle_resource_query ::
  "ServerEnv \<Rightarrow> LiveStream \<Rightarrow> string \<Rightarrow> json \<Rightarrow> LiveStream \<times> (Exn + json)" where
  "handle_resource_query env s resource_uri parameters =
     (case query_resource env resource_uri parameters of
        Inr result \<Rightarrow>
          (write_sse_event s (Some ''resource_result'')
             (JObj [(''resource'', JStr resource_uri), (''result'', result),
                    (''timestamp'', JStr (time_current env))]) None,
           Inr result)
      | Inl e \<Rightarrow>
          if is_StandardError (exn_class e) then
            (s, Inr (JObj [(''error'', JStr ''Resource query failed''),
                           (''resource'', JStr resource_uri),
                           (''message'', JStr (exn_message e))]))
          else (s, Inl e))"

definition handle_protocol_error :: "ServerEnv \<Rightarrow> LiveStream \<Rightarrow> string \<Rightarrow> LiveStream" where
  "handle_protocol_error env s error_message =
     write_sse_event s (Some ''protocol_error'')
       (JObj [(''error'', JStr ''Protocol error''), (''message'', JStr error_message),
              (''timestamp'', JStr (time_current env))]) None"

text \<open>
  \<^verbatim>\<open>FastMcp::SseHandler\<close> is not part of the repository. One run of
  \<^verbatim>\<open>handle_stream(response.stream, request)\<close> is given by what it did, in order: the
  callbacks it invoked and what it did on the stream it was handed, and by how it ended
  (it returned, or it raised). An exception that leaves a callback leaves the run.
\<close>

datatype HandlerStep =
  ToolCall string json
  | ResourceQuery string json
  | ProtocolError string
  | DirectWrite SseEvent
  | StreamClose

record HandlerRun =
  steps :: "HandlerStep list"
  ending :: "Exn option"

fun run_steps ::
  "ServerEnv \<Rightarrow> HandlerStep list \<Rightarrow> Exn option \<Rightarrow> LiveStream \<Rightarrow> LiveStream \<times> Exn option" where
  "run_steps env [] end s = (s, end)"
| "run_steps env (ToolCall tool_name parameters # rest) end s =
     (case handle_tool_call env s tool_name parameters of
        (s', Inl e) \<Rightarrow> (s', Some e)
      | (s', Inr result) \<Rightarrow> run_steps env rest end s')"
| "run_steps env (ResourceQuery resource_uri parameters # rest) end s =
     (case handle_resource_query env s resource_uri parameters of
        (s', Inl e) \<Rightarrow> (s', Some e)
      | (s', Inr result) \<Rightarrow> run_steps env rest end s')"
| "run_steps env (ProtocolError error_message # rest) end s =
     run_steps env rest end (handle_protocol_error env s error_message)"
| "run_steps env (DirectWrite frame # rest) end s =
     (case stream_write s frame of
        Inl io_error \<Rightarrow>
          (s, Some \<lparr>exn_class = IOError, exn_class_name = ''IOError'', exn_message = io_error,
                    exn_backtrace = []\<rparr>)
      | Inr s' \<Rightarrow> run_steps env rest end s')"
| "run_steps env (StreamClose # rest) end s = run_steps env rest end (stream_close s)"

definition handle_stream :: "ServerEnv \<Rightarrow> HandlerRun \<Rightarrow> LiveStream \<Rightarrow> LiveStream \<times> Exn option" where
  "handle_stream env run s = run_steps env (steps run) (ending run) s"

definition connected_data :: "ServerEnv \<Rightarrow> json" where
  "connected_data env =
     JObj [(''server'', JStr ''Unified Merchant Operations Platform''),
           (''version'', JStr ''1.0.0''), (''protocol'', JStr ''mcp/sse''),
           (''timestamp'', JStr (time_current env))]"

text \<open>The rescue clauses of \<^verbatim>\<open>stream\<close>, in their order, and its \<^verbatim>\<open>ensure\<close> clause.\<close>

definition rescue_stream :: "ServerEnv \<Rightarrow> LiveStream \<Rightarrow> Exn option \<Rightarrow> LiveStream \<times> Exn option" where
  "rescue_stream env s raised =
     (case raised of
        None \<Rightarrow> (s, None)
      | Some e \<Rightarrow>
          if exn_class e = ClientDisconnected then (s, None)
          else if exn_class e = TimeoutError then
            (write_sse_event s (Some ''timeout'')
               (JObj [(''message'', JStr ''Connection timeout'')]) None, None)
          else if is_StandardError (exn_class e) then
            (write_sse_event s (Some ''error'')
               (JObj [(''error'', JStr ''Internal server error''),
                      (''message'', JStr (exn_message e)),
                      (''timestamp'', JStr (time_current env))]) None, None)
          else (s, Some e))"

definition ensure_closed :: "LiveStream \<Rightarrow> LiveStream" where
  "ensure_closed s = (if stream_closed s then s else stream_close s)"

text \<open>
  The action \<^verbatim>\<open>stream\<close>: the stream it leaves and the exception that leaves it, if any.
\<close>

definition stream_action :: "ServerEnv \<Rightarrow> HandlerRun \<Rightarrow> LiveStream \<Rightarrow> LiveStream \<times> Exn option" where
  "stream_action env run s =
     (let s1 = write_sse_event s (Some ''connected'') (connected_data env) None;
          (s2, raised) = handle_stream env run s1;
          (s3, propagated) = rescue_stream env s2 raised
      in (ensure_closed s3, propagated))"

text \<open>
  A request to \<^verbatim>\<open>GET /mcp/sse\<close>: the response, the exception that leaves the action, and
  the number of protocol handlers (sessions) created for it.
\<close>

record StreamOutcome =
  sse_response :: Response
  sse_raised :: "Exn option"
  handlers_created :: nat

definition streams_stream :: "ServerEnv \<Rightarrow> HandlerRun \<Rightarrow> Request \<Rightarrow> StreamOutcome" where
  "streams_stream env run request =
     (case run_callbacks [authenticate_mcp_client env request, set_sse_headers] fresh_response of
        (response, True) \<Rightarrow>
          \<lparr>sse_response = response, sse_raised = None, handlers_created = 0\<rparr>
      | (response, False) \<Rightarrow>
          (let (s, propagated) = stream_action env run (stream response)
           in \<lparr>sse_response = response\<lparr>stream := s\<rparr>, sse_raised = propagated,
               handlers_created = 1\<rparr>))"

subsection \<open>Mcp::ToolsController\<close>

definition ensure_development_environment :: "ServerEnv \<Rightarrow> Response \<Rightarrow> Response" where
  "ensure_development_environment env response =
     (if rails_env env = Development then response
      else response\<lparr>status := Some 403,
             body := Some (JObj [(''error'', JStr ''Not available''),
               (''message'', JStr ''Tool testing endpoint only available in development'')])\<rparr>)"

text \<open>The controller's own \<^verbatim>\<open>authenticate_mcp_client!\<close>.\<close>

definition tools_authenticate_mcp_client :: "ServerEnv \<Rightarrow> Request \<Rightarrow> Response \<Rightarrow> Response" where
  "tools_authenticate_mcp_client env request response =
     (let api_key = map_of (headers request) ''X-MCP-Api-Key'';
          expected_key = MCP_API_KEY env
      in if present api_key \<and> present expected_key \<and> api_key = expected_key then response
         else response\<lparr>status := Some 401, body := Some unauthorized_body\<rparr>)"

definition tool_listing :: "string \<times> ToolConfig \<Rightarrow> json" where
  "tool_listing entry =
     (case entry of (tool_name, tool_config) \<Rightarrow>
        JObj [(''name'', JStr tool_name), (''description'', description tool_config),
              (''parameters'', (case schema_parameters tool_config of
                                  None \<Rightarrow> JObj [] | Some ps \<Rightarrow> ps)),
              (''tool_class'', tool_class tool_config)])"

text \<open>\<^verbatim>\<open>index\<close>: \<^verbatim>\<open>before_action :ensure_development_environment!\<close> only.\<close>

definition tools_index :: "ServerEnv \<Rightarrow> Request \<Rightarrow> Response" where
  "tools_index env request =
     (case run_callbacks [ensure_development_environment env] fresh_response of
        (response, True) \<Rightarrow> response
      | (response, False) \<Rightarrow>
          (let tools = map tool_listing (fast_mcp_tools env)
           in response\<lparr>status := Some 200,
                body := Some (JObj [(''server'', JStr ''Unified Merchant Operations Platform''),
                  (''version'', JStr ''1.0.0''), (''tools'', JArr tools),
                  (''count'', JNum (of_nat (length tools)))])\<rparr>))"

text \<open>
  \<^verbatim>\<open>execute\<close>: both callbacks. The result pairs the response with the tool executions that
  were carried out and the exception that leaves the action, if any.
\<close>

record ExecuteOutcome =
  exec_response :: Response
  executions :: "(string \<times> json) list"
  exec_raised :: "Exn option"

definition tools_execute :: "ServerEnv \<Rightarrow> string \<Rightarrow> Request \<Rightarrow> ExecuteOutcome" where
  "tools_execute env tool_name request =
     (case run_callbacks [ensure_development_environment env,
                          tools_authenticate_mcp_client env request] fresh_response of
        (response, True) \<Rightarrow>
          \<lparr>exec_response = response, executions = [], exec_raised = None\<rparr>
      | (response, False) \<Rightarrow>
          (let parameters = params request
           in case execute_tool env tool_name parameters of
                Inr result \<Rightarrow>
                  \<lparr>exec_response = response\<lparr>status := Some 200,
                      body := Some (JObj [(''tool'', JStr tool_name),
                        (''parameters'', parameters), (''result'', result),
                        (''executed_at'', JStr (time_current env))])\<rparr>,
                   executions = [(tool_name, parameters)], exec_raised = None\<rparr>
              | Inl e \<Rightarrow>
                  if is_StandardError (exn_class e) then
                    \<lparr>exec_response = response\<lparr>status := Some 500,
                        body := Some (JObj [(''error'', JStr ''Tool execution failed''),
                          (''tool'', JStr tool_name), (''message'', JStr (exn_message e)),
                          (''backtrace'',
                             (if rails_env env = Development
                              then JArr (map JStr (take 5 (exn_backtrace e))) else JNull))])\<rparr>,
                     executions = [(tool_name, parameters)], exec_raised = None\<rparr>
                  else
                    \<lparr>exec_response = response, executions = [(tool_name, parameters)],
                     exec_raised = Some e\<rparr>))"

subsection \<open>The routes\<close>

datatype Route =
  HealthShow
  | McpSseStream
  | McpToolsExecute string
  | McpToolsIndex
  | ApiCustomerShow string
  | ApiCustomerAggregateContext string

text \<open>
  \<^verbatim>\<open>Rails.application.routes.draw\<close>: the two tool routes are drawn only
  \<^verbatim>\<open>if Rails.env.development?\<close>. A request that matches no route is not found.
\<close>

definition routes :: "RailsEnv \<Rightarrow> HttpMethod \<Rightarrow> string list \<Rightarrow> Route option" where
  "routes env method segments =
     (if method = GET \<and> segments = [''up''] then Some HealthShow
      else if method = GET \<and> segments = [''mcp'', ''sse''] then Some McpSseStream
      else if method = POST \<and> length segments = 3 \<and> take 2 segments = [''mcp'', ''tools'']
              \<and> env = Development
           then Some (McpToolsExecute (segments ! 2))
      else if method = GET \<and> segments = [''mcp'', ''tools''] \<and> env = Development
           then Some McpToolsIndex
      else if method = GET \<and> length segments = 4
              \<and> take 3 segments = [''api'', ''v1'', ''customers'']
           then Some (ApiCustomerShow (segments ! 3))
      else if method = GET \<and> length segments = 5
              \<and> take 3 segments = [''api'', ''v1'', ''customers'']
              \<and> segments ! 4 = ''aggregate_context''
           then Some (ApiCustomerAggregateContext (segments ! 3))
      else None)"

datatype Served =
  NotFound
  | OtherController Route
  | Streamed StreamOutcome
  | ToolsListed Response
  | ToolExecuted ExecuteOutcome

definition serve :: "ServerEnv \<Rightarrow> HandlerRun \<Rightarrow> Request \<Rightarrow> Served" where
  "serve env run request =
     (case routes (rails_env env) (http_method request) (path request) of
        None \<Rightarrow> NotFound
      | Some McpSseStream \<Rightarrow> Streamed (streams_stream env run request)
      | Some (McpToolsExecute tool_name) \<Rightarrow> ToolExecuted (tools_execute env tool_name request)
      | Some McpToolsIndex \<Rightarrow> ToolsListed (tools_index env request)
      | Some route \<Rightarrow> OtherController route)"

subsection \<open>Scenarios of the tool host\<close>

definition shopify_down :: Exn where
  "shopify_down =
     \<lparr>exn_class = OtherStandardError, exn_class_name = ''ShopifyAPI::Errors::HttpResponseError'',
      exn_message = ''Shopify API unavailable'',
      exn_backtrace = []\<rparr>"

definition not_implemented :: Exn where
  "not_implemented =
     \<lparr>exn_class = NotStandardError, exn_class_name = ''NotImplementedError'',
      exn_message = ''NotImplementedError'',
      exn_backtrace = []\<rparr>"

text \<open>
  A development server with one secret, on which \<^verbatim>\<open>refund_order\<close> raises a StandardError and
  \<^verbatim>\<open>unfinished\<close> raises NotImplementedError.
\<close>

definition dev_env :: ServerEnv where
  "dev_env =
     \<lparr>rails_env = Development,
      MCP_API_KEY = Some ''my-secret-key-123'',
      fast_mcp_tools =
        [(''refund_order'',
          \<lparr>description = JStr ''Refund'', schema_parameters = None,
           tool_class = JStr ''Tools::RefundOrder''\<rparr>)],
      execute_tool = (\<lambda>tool_name parameters.
         if tool_name = ''refund_order'' then Inl shopify_down
         else if tool_name = ''unfinished'' then Inl not_implemented
         else Inr (JObj [])),
      query_resource = (\<lambda>resource_uri parameters. Inr JNull),
      time_current = ''2026-01-01T00:00:00Z''\<rparr>"

definition sse_request :: "(string \<times> string) list \<Rightarrow> Request" where
  "sse_request hs = \<lparr>http_method = GET, path = [''mcp'', ''sse''], headers = hs, params = JObj []\<rparr>"

definition quiet_run :: HandlerRun where
  "quiet_run = \<lparr>steps = [], ending = None\<rparr>"

definition open_stream :: LiveStream where
  "open_stream = \<lparr>frames = [], stream_closed = False, close_calls = 0\<rparr>"

definition tools_request :: "HttpMethod \<Rightarrow> string list \<Rightarrow> (string \<times> string) list \<Rightarrow> Request" where
  "tools_request method segments hs =
     \<lparr>http_method = method, path = segments, headers = hs, params = JObj []\<rparr>"

definition production_env :: ServerEnv where
  "production_env = dev_env\<lparr>rails_env := Production\<rparr>"

section \<open>Orchestrator side: the connection manager\<close>

text \<open>
  The module state of \<^verbatim>\<open>mcp-client.server.ts\<close> (\<^verbatim>\<open>mcpClient\<close>, \<^verbatim>\<open>connectionPromise\<close>) and the
  functions that change it. Node runs one piece of code at a time: what runs between two
  suspension points is one step. A client and the promise of the attempt that creates it
  are named by the number of the attempt.
\<close>

text \<open>
  What one run of \<^verbatim>\<open>initializeMcpClient\<close> meets: the environment variable, whether
  \<^verbatim>\<open>client.connect(transport)\<close> throws, and what \<^verbatim>\<open>client.listTools()\<close> gives.
\<close>

record InitEnv =
  api_key :: "string option"
  connect_error :: "string option"
  listTools_result :: "string + string list"

text \<open>
  \<^verbatim>\<open>initializeMcpClient\<close>: the client or the error thrown, and the connections it opened
  (\<^verbatim>\<open>client.connect\<close> resolved). The check of the key stands before the \<^verbatim>\<open>try\<close>; what is
  thrown inside it is wrapped.
\<close>

definition initializeMcpClient :: "InitEnv \<Rightarrow> nat \<Rightarrow> (string + nat) \<times> nat list" where
  "initializeMcpClient ienv client =
     (if api_key ienv = None \<or> api_key ienv = Some [] then
        (Inl ''MCP_API_KEY environment variable is required'', [])
      else
        (case connect_error ienv of
           Some error \<Rightarrow> (Inl (''Failed to connect to MCP server: '' @ error), [])
         | None \<Rightarrow>
             (case listTools_result ienv of
                Inl error \<Rightarrow> (Inl (''Failed to connect to MCP server: '' @ error), [client])
              | Inr tools \<Rightarrow> (Inr client, [client]))))"

text \<open>
  The two module variables, and what has happened so far: the number of attempts started,
  the connections that were established and those that were closed, the callers that
  await a promise (caller, promise), and what callers got back (caller, outcome).
\<close>

record ConnectionManager =
  mcpClient :: "nat option"
  connectionPromise :: "nat option"
  attempts :: nat
  established :: "nat list"
  closed_clients :: "nat list"
  waiting :: "(nat \<times> nat) list"
  returned :: "(nat \<times> (string + nat)) list"

definition module_loaded :: ConnectionManager where
  "module_loaded =
     \<lparr>mcpClient = None, connectionPromise = None, attempts = 0, established = [],
      closed_clients = [], waiting = [], returned = []\<rparr>"

text \<open>
  \<^verbatim>\<open>getMcpClient()\<close> called by \<open>caller\<close>, up to its first suspension: it returns the client,
  or the promise in flight, or starts an attempt and awaits its promise.
\<close>

definition getMcpClient :: "nat \<Rightarrow> ConnectionManager \<Rightarrow> ConnectionManager" where
  "getMcpClient caller m =
     (case mcpClient m of
        Some client \<Rightarrow> m\<lparr>returned := returned m @ [(caller, Inr client)]\<rparr>
      | None \<Rightarrow>
          (case connectionPromise m of
             Some promise \<Rightarrow> m\<lparr>waiting := waiting m @ [(caller, promise)]\<rparr>
           | None \<Rightarrow>
               m\<lparr>connectionPromise := Some (attempts m), attempts := attempts m + 1,
                  waiting := waiting m @ [(caller, attempts m)]\<rparr>))"

text \<open>
  The attempt in flight settles: \<^verbatim>\<open>mcpClient = await connectionPromise\<close> goes on in the
  caller that started it (or its \<^verbatim>\<open>catch\<close> resets \<^verbatim>\<open>connectionPromise\<close>), and every caller
  that awaits the promise gets its outcome.
\<close>

definition settled :: "InitEnv \<Rightarrow> ConnectionManager \<Rightarrow> ConnectionManager" where
  "settled ienv m =
     (case connectionPromise m of
        None \<Rightarrow> m
      | Some promise \<Rightarrow>
          if mcpClient m \<noteq> None then m
          else
            (case initializeMcpClient ienv promise of
               (outcome, opened) \<Rightarrow>
                 (let m' = m\<lparr>established := established m @ opened,
                             returned := returned m @
                               map (\<lambda>w. (fst w, outcome)) (filter (\<lambda>w. snd w = promise) (waiting m)),
                             waiting := filter (\<lambda>w. snd w \<noteq> promise) (waiting m)\<rparr>
                  in case outcome of
                       Inr client \<Rightarrow> m'\<lparr>mcpClient := Some client\<rparr>
                     | Inl error \<Rightarrow> m'\<lparr>connectionPromise := None\<rparr>)))"

text \<open>
  \<^verbatim>\<open>closeMcpClient()\<close>, given what \<^verbatim>\<open>mcpClient.close()\<close> does (\<open>None\<close>: it resolves): what the
  call throws, if anything, and the state it leaves.
\<close>

definition closeMcpClient :: "string option \<Rightarrow> ConnectionManager \<Rightarrow> string option \<times> ConnectionManager" where
  "closeMcpClient close_error m =
     (case mcpClient m of
        None \<Rightarrow> (None, m)
      | Some client \<Rightarrow>
          (case close_error of
             Some error \<Rightarrow> (Some error, m)
           | None \<Rightarrow>
               (None, m\<lparr>closed_clients := closed_clients m @ [client], mcpClient := None,
                         connectionPromise := None\<rparr>)))"

datatype ManagerEvent = Calls nat | Settles InitEnv | Closes "string option"

fun manager_step :: "ManagerEvent \<Rightarrow> ConnectionManager \<Rightarrow> ConnectionManager" where
  "manager_step (Calls caller) m = getMcpClient caller m"
| "manager_step (Settles ienv) m = settled ienv m"
| "manager_step (Closes close_error) m = snd (closeMcpClient close_error m)"

definition manager_run :: "ManagerEvent list \<Rightarrow> ConnectionManager" where
  "manager_run events = fold manager_step events module_loaded"

fun is_Closes :: "ManagerEvent \<Rightarrow> bool" where
  "is_Closes (Closes close_error) = True"
| "is_Closes event = False"

text \<open>The clients that were handed to callers.\<close>

definition clients_of :: "(nat \<times> (string + nat)) list \<Rightarrow> nat list" where
  "clients_of rs =
     concat (map (\<lambda>r. case snd r of Inl error \<Rightarrow> [] | Inr client \<Rightarrow> [client]) rs)"

definition clients_returned :: "ConnectionManager \<Rightarrow> nat list" where
  "clients_returned m = clients_of (returned m)"

text \<open>Scenarios: the tool listing fails once after the connection was opened.\<close>

definition listing_fails :: InitEnv where
  "listing_fails =
     \<lparr>api_key = Some ''my-secret-key-123'', connect_error = None,
      listTools_result = Inl ''Error: Request timed out''\<rparr>"

definition all_well :: InitEnv where
  "all_well =
     \<lparr>api_key = Some ''my-secret-key-123'', connect_error = None,
      listTools_result = Inr [''aggregate_customer_context'', ''refund_order'']\<rparr>"

subsection \<open>Observing the manager\<close>

text \<open>The invariant of the manager as long as nobody closes the connection.\<close>

definition single_flight :: "ConnectionManager \<Rightarrow> bool" where
  "single_flight m =
     ((case mcpClient m of
         Some client \<Rightarrow>
           connectionPromise m = Some client \<and> waiting m = [] \<and>
           set (clients_returned m) \<subseteq> {client}
       | None \<Rightarrow>
           clients_returned m = [] \<and> (\<forall>w\<in>set (waiting m). connectionPromise m = Some (snd w))))"

definition connected_manager :: ConnectionManager where
  "connected_manager =
     \<lparr>mcpClient = Some 0, connectionPromise = Some 0, attempts = 1, established = [0],
      closed_clients = [], waiting = [], returned = [(1, Inr 0)]\<rparr>"

definition timed_out :: Exn where
  "timed_out =
     \<lparr>exn_class = TimeoutError, exn_class_name = ''Timeout::Error'',
      exn_message = ''execution expired'', exn_backtrace = []\<rparr>"

section \<open>Tool host side: the tools\<close>


text \<open>\<^verbatim>\<open>raise "..."\<close> raises a RuntimeError.\<close>

definition runtime_error :: "string \<Rightarrow> Exn" where
  "runtime_error msg =
     \<lparr>exn_class = OtherStandardError, exn_class_name = ''RuntimeError'', exn_message = msg,
      exn_backtrace = []\<rparr>"

subsection \<open>Tools::RefundOrder\<close>








subsection \<open>Tools::AggregateCustomerContext\<close>











subsection \<open>Scenarios of the tools\<close>




section \<open>Properties of the orchestrator\<close>

declare agentic_loop.simps [simp del]

lemma settle_Inr_all:
  "settle order outcomes acc = Inr acc' \<Longrightarrow> i \<in> set order \<Longrightarrow> \<exists>v. outcomes ! i = Inr v"
proof (induction order arbitrary: acc)
  case Nil
  then show ?case by simp
next
  case (Cons j order)
  obtain records slots where acc: "acc = (records, slots)" by (cases acc)
  show ?case
  proof (cases "outcomes ! j")
    case (Inl e)
    with Cons.prems acc show ?thesis by simp
  next
    case (Inr v)
    obtain rcd response where v: "v = (rcd, response)" by (cases v)
    from Cons.prems(1) acc Inr v
    have "settle order outcomes (records @ [rcd], slots[j := Some response]) = Inr acc'"
      by simp
    from Cons.IH [OF this] Cons.prems(2) Inr show ?thesis by auto
  qed
qed

lemma settle_all_Inr:
  "(\<And>i. i \<in> set order \<Longrightarrow> outcomes ! i = Inr (f i, g i)) \<Longrightarrow>
   settle order outcomes (records, slots) =
     Inr (records @ map f order, fold (\<lambda>i s. s[i := Some (g i)]) order slots)"
  by (induction order arbitrary: records slots) simp_all

lemma length_fold_update:
  "length (fold (\<lambda>i s. s[i := h i]) order slots) = length slots"
  by (induction order arbitrary: slots) simp_all

lemma nth_fold_update:
  "j < length slots \<Longrightarrow>
   fold (\<lambda>i s. s[i := h i]) order slots ! j = (if j \<in> set order then h j else slots ! j)"
  by (induction order arbitrary: slots) (auto simp: nth_list_update)

lemma fold_update_all:
  assumes "set order = {0..<n}" and "length slots = n"
  shows "fold (\<lambda>i s. s[i := Some (g i)]) order slots = map (\<lambda>i. Some (g i)) [0..<n]"
proof (rule nth_equalityI)
  show "length (fold (\<lambda>i s. s[i := Some (g i)]) order slots) = length (map (\<lambda>i. Some (g i)) [0..<n])"
    using assms by (simp add: length_fold_update)
next
  fix j assume "j < length (fold (\<lambda>i s. s[i := Some (g i)]) order slots)"
  then have j: "j < n" using assms by (simp add: length_fold_update)
  then show "fold (\<lambda>i s. s[i := Some (g i)]) order slots ! j = map (\<lambda>i. Some (g i)) [0..<n] ! j"
    using assms by (simp add: nth_fold_update)
qed

lemma filled_map_Some: "filled (map (\<lambda>i. Some (g i)) xs) = map g xs"
  by (induction xs) (simp_all add: filled_def)

lemma set_completion_order: "set (completion_order rank n) = {0..<n}"
  by (simp add: completion_order_def)

lemma length_completion_order: "length (completion_order rank n) = n"
  by (simp add: completion_order_def)

lemma nth_outcomes:
  "i < length calls \<Longrightarrow>
   map (\<lambda>(i, p). callback env it i p) (enumerate 0 calls) ! i = callback env it i (calls ! i)"
  by (simp add: nth_enumerate_eq)

text \<open>What a turn gives when it fulfils: responses in request order.\<close>

lemma execute_function_calls_Inr:
  assumes "execute_function_calls env it calls records = Inr (records', responses)"
  shows "length responses = length calls"
    and "\<And>i. i < length calls \<Longrightarrow> \<exists>record. callback env it i (calls ! i) = Inr (record, responses ! i)"
    and "records' = records @ map (\<lambda>i. fst (projr (callback env it i (calls ! i))))
              (completion_order (finish_rank env it) (length calls))"
proof -
  let ?n = "length calls"
  let ?order = "completion_order (finish_rank env it) ?n"
  let ?outcomes = "map (\<lambda>(i, p). callback env it i p) (enumerate 0 calls)"
  let ?f = "\<lambda>i. fst (projr (callback env it i (calls ! i)))"
  let ?g = "\<lambda>i. snd (projr (callback env it i (calls ! i)))"
  from assms obtain slots where
    s: "settle ?order ?outcomes (records, replicate ?n None) = Inr (records', slots)"
    and r: "responses = filled slots"
    by (auto simp: execute_function_calls_def split: if_splits sum.splits)
  have ok: "?outcomes ! i = Inr (?f i, ?g i)" if "i \<in> set ?order" for i
  proof -
    from that have i: "i < ?n" by (simp add: set_completion_order)
    from settle_Inr_all [OF s that] obtain v where "?outcomes ! i = Inr v" ..
    with i show ?thesis by (simp add: nth_enumerate_eq)
  qed
  from settle_all_Inr [of ?order ?outcomes ?f ?g records "replicate ?n None", OF ok] s
  have rec: "records' = records @ map ?f ?order"
    and sl: "slots = fold (\<lambda>i s. s[i := Some (?g i)]) ?order (replicate ?n None)"
    by simp_all
  from sl have "slots = map (\<lambda>i. Some (?g i)) [0..<?n]"
    by (simp add: fold_update_all [OF set_completion_order])
  with r have resp: "responses = map ?g [0..<?n]" by (simp add: filled_map_Some)
  from resp show "length responses = length calls" by simp
  show "\<exists>record. callback env it i (calls ! i) = Inr (record, responses ! i)" if "i < length calls" for i
  proof -
    from that have "i \<in> set ?order" by (simp add: set_completion_order)
    from ok [OF this] that have "callback env it i (calls ! i) = Inr (?f i, ?g i)"
      by (simp add: nth_enumerate_eq)
    moreover from resp that have "responses ! i = ?g i" by simp
    ultimately have "callback env it i (calls ! i) = Inr (?f i, responses ! i)" by simp
    then show ?thesis by (rule exI)
  qed
  from rec show "records' = records @ map ?f ?order" .
qed

lemma execute_function_calls_ok:
  assumes "\<not> list_ex throws_at_once calls"
    and "\<And>i. i < length calls \<Longrightarrow> \<exists>v. callback env it i (calls ! i) = Inr v"
  shows "\<exists>records' responses. execute_function_calls env it calls records = Inr (records', responses)"
proof -
  let ?n = "length calls"
  let ?order = "completion_order (finish_rank env it) ?n"
  let ?outcomes = "map (\<lambda>(i, p). callback env it i p) (enumerate 0 calls)"
  let ?f = "\<lambda>i. fst (projr (callback env it i (calls ! i)))"
  let ?g = "\<lambda>i. snd (projr (callback env it i (calls ! i)))"
  have ok: "?outcomes ! i = Inr (?f i, ?g i)" if "i \<in> set ?order" for i
  proof -
    from that have i: "i < ?n" by (simp add: set_completion_order)
    from assms(2) [OF i] obtain v where "callback env it i (calls ! i) = Inr v" ..
    with i show ?thesis by (simp add: nth_enumerate_eq)
  qed
  from settle_all_Inr [of ?order ?outcomes ?f ?g records "replicate ?n None", OF ok] assms(1)
  show ?thesis by (simp add: execute_function_calls_def)
qed

lemma next_state_simps [simp]:
  "iterationCount (next_state env chat st) = iterationCount st + 1"
  "sentMessages (next_state env chat st) = sentMessages st @ [currentMessage st]"
  "toolCallRecords (next_state env chat st) = toolCallRecords st"
  by (simp_all add: next_state_def track_usage_def Let_def split: sum.splits option.splits)

lemma agentic_loop_unfold:
  "agentic_loop env chat m st =
     (if iterationCount st < m then
        (case reply_to env chat (sentMessages st @ [currentMessage st]) of
           ModelThrew err \<Rightarrow> (Inl err, sentMessages st @ [currentMessage st])
         | NoCandidate \<Rightarrow>
             (Inr (respond no_candidate_message (next_state env chat st)),
              sentMessages st @ [currentMessage st])
         | FinalAnswer textParts \<Rightarrow>
             (Inr (respond (final_text textParts) (next_state env chat st)),
              sentMessages st @ [currentMessage st])
         | ToolsRequested functionCalls \<Rightarrow>
             (case execute_function_calls env (iterationCount st + 1) functionCalls
                     (toolCallRecords st) of
                Inl err \<Rightarrow> (Inl err, sentMessages st @ [currentMessage st])
              | Inr (records, functionResponses) \<Rightarrow>
                  agentic_loop env chat m
                    ((next_state env chat st)\<lparr>toolCallRecords := records,
                        currentMessage := PartsInput functionResponses\<rparr>)))
      else (Inr (respond limit_message st), sentMessages st))"
  apply (subst agentic_loop.simps)
  apply (simp add: reply_to_def next_state_def Let_def track_usage_def
      split: sum.splits option.splits prod.splits)
  done

lemma loop_measure_induct:
  assumes "\<And>st. (\<And>records resps. iterationCount st < m \<Longrightarrow>
              P ((next_state env chat st)\<lparr>toolCallRecords := records,
                    currentMessage := PartsInput resps\<rparr>)) \<Longrightarrow> P st"
  shows "P st"
proof (induction "nat (m - iterationCount st)" arbitrary: st rule: less_induct)
  case less
  show ?case
  proof (rule assms)
    fix records resps
    assume "iterationCount st < m"
    then show "P ((next_state env chat st)\<lparr>toolCallRecords := records,
                    currentMessage := PartsInput resps\<rparr>)"
      by (intro less) simp
  qed
qed

text \<open>Rule induction over a run of the loop: one case per way an iteration ends.\<close>

lemma agentic_loop_run_induct [consumes 1, case_names limit threw no_candidate final tool_threw continue]:
  assumes run: "agentic_loop env chat m st = (out, sent)"
    and limit: "\<And>st. \<not> iterationCount st < m \<Longrightarrow>
        Q st (Inr (respond limit_message st)) (sentMessages st)"
    and threw: "\<And>st err. iterationCount st < m \<Longrightarrow>
        reply_to env chat (sentMessages st @ [currentMessage st]) = ModelThrew err \<Longrightarrow>
        Q st (Inl err) (sentMessages st @ [currentMessage st])"
    and no_candidate: "\<And>st. iterationCount st < m \<Longrightarrow>
        reply_to env chat (sentMessages st @ [currentMessage st]) = NoCandidate \<Longrightarrow>
        Q st (Inr (respond no_candidate_message (next_state env chat st)))
          (sentMessages st @ [currentMessage st])"
    and final: "\<And>st textParts. iterationCount st < m \<Longrightarrow>
        reply_to env chat (sentMessages st @ [currentMessage st]) = FinalAnswer textParts \<Longrightarrow>
        Q st (Inr (respond (final_text textParts) (next_state env chat st)))
          (sentMessages st @ [currentMessage st])"
    and tool_threw: "\<And>st cs err. iterationCount st < m \<Longrightarrow>
        reply_to env chat (sentMessages st @ [currentMessage st]) = ToolsRequested cs \<Longrightarrow>
        execute_function_calls env (iterationCount st + 1) cs (toolCallRecords st) = Inl err \<Longrightarrow>
        Q st (Inl err) (sentMessages st @ [currentMessage st])"
    and continue: "\<And>st cs records resps out sent. iterationCount st < m \<Longrightarrow>
        reply_to env chat (sentMessages st @ [currentMessage st]) = ToolsRequested cs \<Longrightarrow>
        execute_function_calls env (iterationCount st + 1) cs (toolCallRecords st)
          = Inr (records, resps) \<Longrightarrow>
        agentic_loop env chat m ((next_state env chat st)\<lparr>toolCallRecords := records,
            currentMessage := PartsInput resps\<rparr>) = (out, sent) \<Longrightarrow>
        Q ((next_state env chat st)\<lparr>toolCallRecords := records,
            currentMessage := PartsInput resps\<rparr>) out sent \<Longrightarrow>
        Q st out sent"
  shows "Q st out sent"
  using run
proof (induction st arbitrary: out sent rule: loop_measure_induct [where m = m and env = env and chat = chat])
  case (1 st)
  show ?case
  proof (cases "iterationCount st < m")
    case False
    with "1.prems" limit [OF False] show ?thesis
      by (subst (asm) agentic_loop_unfold) auto
  next
    case True
    show ?thesis
    proof (cases "reply_to env chat (sentMessages st @ [currentMessage st])")
      case (ModelThrew err)
      with "1.prems" True threw [OF True ModelThrew] show ?thesis
        by (subst (asm) agentic_loop_unfold) auto
    next
      case NoCandidate
      with "1.prems" True no_candidate [OF True NoCandidate] show ?thesis
        by (subst (asm) agentic_loop_unfold) auto
    next
      case (FinalAnswer textParts)
      with "1.prems" True final [OF True FinalAnswer] show ?thesis
        by (subst (asm) agentic_loop_unfold) auto
    next
      case (ToolsRequested cs)
      show ?thesis
      proof (cases "execute_function_calls env (iterationCount st + 1) cs (toolCallRecords st)")
        case (Inl err)
        with "1.prems" True ToolsRequested tool_threw [OF True ToolsRequested Inl] show ?thesis
          by (subst (asm) agentic_loop_unfold) auto
      next
        case (Inr v)
        obtain records resps where v: "v = (records, resps)" by (cases v)
        let ?st' = "(next_state env chat st)\<lparr>toolCallRecords := records,
                        currentMessage := PartsInput resps\<rparr>"
        from "1.prems" True ToolsRequested Inr v
        have sub: "agentic_loop env chat m ?st' = (out, sent)"
          by (subst (asm) agentic_loop_unfold) simp
        from "1.IH" [OF True sub] have "Q ?st' out sent" .
        with True ToolsRequested Inr v sub show ?thesis
          by (intro continue [of st cs records resps out sent]) simp_all
      qed
    qed
  qed
qed

text \<open>The messages sent extend those sent before, by at most the remaining budget.\<close>

lemma loop_sent:
  "agentic_loop env chat m st = (out, sent) \<Longrightarrow>
   \<exists>extra. sent = sentMessages st @ extra \<and> int (length extra) \<le> max 0 (m - iterationCount st)"
proof (induction rule: agentic_loop_run_induct)
  case (continue st cs records resps out sent)
  then obtain extra where
    "sent = (sentMessages st @ [currentMessage st]) @ extra"
    "int (length extra) \<le> max 0 (m - (iterationCount st + 1))" by auto
  with continue(1) have "sent = sentMessages st @ (currentMessage st # extra) \<and>
      int (length (currentMessage st # extra)) \<le> max 0 (m - iterationCount st)"
    by simp
  then show ?case by blast
qed auto

lemma loop_sent_take:
  assumes "agentic_loop env chat m st = (out, sent)"
  shows "take (length (sentMessages st)) sent = sentMessages st"
    and "length (sentMessages st) \<le> length sent"
  using loop_sent [OF assms] by auto

text \<open>The iteration count returned counts the round-trips.\<close>

lemma loop_iterations:
  "agentic_loop env chat m st = (Inr r, sent) \<Longrightarrow>
   iterations r = iterationCount st + (int (length sent) - int (length (sentMessages st)))"
proof (induction st "Inr r :: string + ChatResponse" sent rule: agentic_loop_run_induct)
qed (auto simp: respond_def)

lemma loop_sent_nth:
  assumes "agentic_loop env chat m st = (out, sent)"
    and "length (sentMessages st) < length sent"
  shows "sent ! length (sentMessages st) = currentMessage st"
    and "take (Suc (length (sentMessages st))) sent = sentMessages st @ [currentMessage st]"
proof -
  have "take (Suc (length (sentMessages st))) sent = sentMessages st @ [currentMessage st]"
    using assms
  proof (induction rule: agentic_loop_run_induct)
    case (continue st cs records resps out sent)
    from loop_sent_take(1) [OF continue(4)] show ?case by simp
  qed auto
  then show "take (Suc (length (sentMessages st))) sent = sentMessages st @ [currentMessage st]" .
  then have "take (Suc (length (sentMessages st))) sent ! length (sentMessages st) = currentMessage st"
    by simp
  then show "sent ! length (sentMessages st) = currentMessage st" by simp
qed


lemma reply_to_ModelThrew:
  "reply_to env chat sent = ModelThrew err \<longleftrightarrow> sendMessage env chat sent = Inl err"
  by (auto simp: reply_to_def Let_def split: sum.splits option.splits if_splits)

lemma execute_function_calls_length:
  assumes "execute_function_calls env it calls records = Inr (records', responses)"
  shows "length records' = length records + length calls"
  using execute_function_calls_Inr(3) [OF assms] by (simp add: length_completion_order)

text \<open>Every function call the model requested during the run has a record.\<close>

lemma loop_toolCalls:
  "agentic_loop env chat m st = (Inr r, sent) \<Longrightarrow>
   length (toolCalls r) = length (toolCallRecords st) +
     (\<Sum>k = length (sentMessages st)..<length sent.
         length (requested (reply_to env chat (take (Suc k) sent))))"
proof (induction st "Inr r :: string + ChatResponse" sent rule: agentic_loop_run_induct)
  case (continue st cs records resps sent)
  let ?a = "length (sentMessages st)"
  let ?g = "\<lambda>k. length (requested (reply_to env chat (take (Suc k) sent)))"
  from loop_sent_take [OF continue(4)] have tk: "take (Suc ?a) sent = sentMessages st @ [currentMessage st]"
    and lt: "?a < length sent" by simp_all
  from lt have "sum ?g {?a..<length sent} = ?g ?a + sum ?g {Suc ?a..<length sent}"
    by (rule sum.atLeast_Suc_lessThan)
  moreover from tk continue(2) have "?g ?a = length cs" by simp
  moreover from continue(5) have "length (toolCalls r) = length records + sum ?g {Suc ?a..<length sent}"
    by simp
  moreover from execute_function_calls_length [OF continue(3)]
  have "length records = length (toolCallRecords st) + length cs" .
  ultimately show ?case by simp
qed (auto simp: respond_def)

text \<open>How a run that returns a response ended.\<close>

lemma loop_exit:
  "agentic_loop env chat m st = (Inr r, sent) \<Longrightarrow>
   (if sent = sentMessages st then \<not> iterationCount st < m \<and> message r = limit_message
    else (case reply_to env chat sent of
            ModelThrew err \<Rightarrow> False
          | NoCandidate \<Rightarrow> message r = no_candidate_message
          | FinalAnswer textParts \<Rightarrow> message r = final_text textParts
          | ToolsRequested cs \<Rightarrow> message r = limit_message \<and> m \<le> iterations r))"
proof (induction st "Inr r :: string + ChatResponse" sent rule: agentic_loop_run_induct)
  case (continue st cs records resps sent)
  let ?st' = "(next_state env chat st)\<lparr>toolCallRecords := records,
                  currentMessage := PartsInput resps\<rparr>"
  from loop_sent_take [OF continue(4)] have ne: "sent \<noteq> sentMessages st" by auto
  show ?case
  proof (cases "sent = sentMessages ?st'")
    case True
    with continue(5) have "\<not> iterationCount ?st' < m" "message r = limit_message" by simp_all
    moreover from loop_iterations [OF continue(4)] True have "iterations r = iterationCount ?st'"
      by simp
    moreover from True continue(2) have "reply_to env chat sent = ToolsRequested cs" by simp
    ultimately show ?thesis using ne by simp
  next
    case False
    with continue(5) ne show ?thesis by simp
  qed
qed (auto simp: respond_def)

text \<open>Every message fed back to the model holds the results of the calls the model
  had requested, in the order of the requests.\<close>

lemma loop_fed_back:
  "agentic_loop env chat m st = (out, sent) \<Longrightarrow>
   length (sentMessages st) \<le> k \<Longrightarrow> Suc k < length sent \<Longrightarrow>
   \<exists>cs resps. reply_to env chat (take (Suc k) sent) = ToolsRequested cs \<and>
      sent ! Suc k = PartsInput resps \<and> length resps = length cs \<and>
      (\<forall>i<length cs. \<exists>rcd.
          callback env (iterationCount st - int (length (sentMessages st)) + int k + 1) i (cs ! i)
            = Inr (rcd, resps ! i))"
proof (induction arbitrary: k rule: agentic_loop_run_induct)
  case (continue st cs records resps out sent)
  let ?a = "length (sentMessages st)"
  let ?st' = "(next_state env chat st)\<lparr>toolCallRecords := records,
                  currentMessage := PartsInput resps\<rparr>"
  show ?case
  proof (cases "k = ?a")
    case True
    with continue.prems have "length (sentMessages ?st') < length sent" by simp
    from loop_sent_nth(1) [OF continue(4) this] True have "sent ! Suc k = PartsInput resps"
      by simp
    moreover from loop_sent_take(1) [OF continue(4)] True continue(2)
    have "reply_to env chat (take (Suc k) sent) = ToolsRequested cs" by simp
    moreover note execute_function_calls_Inr(1,2) [OF continue(3)]
    ultimately show ?thesis using True by auto
  next
    case False
    with continue.prems have k: "length (sentMessages ?st') \<le> k" by simp
    have "iterationCount ?st' - int (length (sentMessages ?st')) + int k + 1
          = iterationCount st - int ?a + int k + 1" by simp
    with continue.IH [OF k continue.prems(2)] show ?thesis by metis
  qed
qed auto

text \<open>When neither the model nor the connection throws and every function-call part
  carries its call, the loop returns a response.\<close>

lemma callback_ok:
  assumes "\<not> throws_at_once p" and "getMcpClient_at env it i = Inr c"
  shows "\<exists>v. callback env it i p = Inr v"
proof -
  from assms(1) obtain fc where "p = FunctionCallPart (Some fc)"
    by (cases p rule: throws_at_once.cases) auto
  with assms(2) show ?thesis
    by (auto simp: run_call_def callMcpTool_def Let_def split: sum.splits)
qed

lemma loop_returns:
  assumes "agentic_loop env chat m st = (out, sent)"
    and "\<And>sent err. sendMessage env chat sent \<noteq> Inl err"
    and "\<And>sent. \<not> list_ex throws_at_once (requested (reply_to env chat sent))"
    and "\<And>it i. \<exists>c. getMcpClient_at env it i = Inr c"
  shows "\<exists>r. out = Inr r"
  using assms(1)
proof (induction rule: agentic_loop_run_induct)
  case (threw st err)
  with assms(2) show ?case by (simp add: reply_to_ModelThrew)
next
  case (tool_threw st cs err)
  from assms(3) [of "sentMessages st @ [currentMessage st]"] tool_threw(2)
  have nt: "\<not> list_ex throws_at_once cs" by simp
  have "\<exists>v. callback env (iterationCount st + 1) i (cs ! i) = Inr v" if "i < length cs" for i
  proof -
    from nt that have "\<not> throws_at_once (cs ! i)" by (auto simp: list_ex_iff)
    moreover from assms(4) obtain c where "getMcpClient_at env (iterationCount st + 1) i = Inr c"
      by blast
    ultimately show ?thesis by (rule callback_ok)
  qed
  from execute_function_calls_ok [OF nt this, of "toolCallRecords st"] tool_threw(3)
  show ?case by auto
qed auto

lemma run_chat_loop:
  assumes "listMcpTools env = Inr mcpTools" and "last_item (messages request) = Some latest"
    and "role latest = RoleUser"
  shows "run_chat env request =
    agentic_loop env (chat_of env request) (maxCalls_of request) (initial_state latest)"
  using assms by (simp add: run_chat_def chat_of_def)

lemma run_chat_cases:
  obtains (rejected) err where "run_chat env request = (Inl err, [])"
  | (looped) latest where "run_chat env request =
      agentic_loop env (chat_of env request) (maxCalls_of request) (initial_state latest)"
proof (cases "listMcpTools env")
  case (Inl err)
  then have "run_chat env request = (Inl err, [])" by (simp add: run_chat_def)
  then show ?thesis by (rule rejected)
next
  case (Inr mcpTools)
  show ?thesis
  proof (cases "last_item (messages request)")
    case None
    with Inr have "run_chat env request = (Inl ''Last message must be from user'', [])"
      by (simp add: run_chat_def)
    then show ?thesis by (rule rejected)
  next
    case (Some latest)
    show ?thesis
    proof (cases "role latest = RoleUser")
      case True
      from run_chat_loop [OF Inr Some True] show ?thesis by (rule looped)
    next
      case False
      with Inr Some have "run_chat env request = (Inl ''Last message must be from user'', [])"
        by (simp add: run_chat_def)
      then show ?thesis by (rule rejected)
    qed
  qed
qed

lemma initial_state_simps [simp]:
  "iterationCount (initial_state latest) = 0"
  "sentMessages (initial_state latest) = []"
  "toolCallRecords (initial_state latest) = []"
  by (simp_all add: initial_state_def)



text \<open>The run of a request that starts, with collaborators that return.\<close>

lemma run_chat_returns:
  assumes "starts env request" and "collaborators_return env (chat_of env request)"
  obtains r sent where "run_chat env request = (Inr r, sent)"
    and "iterations r = int (length sent)"
    and "length (toolCalls r) = requested_total env (chat_of env request) sent"
    and "\<And>k. Suc k < length sent \<Longrightarrow>
           \<exists>cs. reply_to env (chat_of env request) (take (Suc k) sent) = ToolsRequested cs"
    and "if sent = [] then message r = limit_message \<and> maxCalls_of request \<le> 0
         else (case reply_to env (chat_of env request) sent of
            ModelThrew err \<Rightarrow> False
          | NoCandidate \<Rightarrow> message r = no_candidate_message
          | FinalAnswer textParts \<Rightarrow> message r = final_text textParts
          | ToolsRequested cs \<Rightarrow> message r = limit_message \<and> iterations r = maxCalls_of request)"
proof -
  let ?chat = "chat_of env request" and ?m = "maxCalls_of request"
  from assms(1) obtain mcpTools latest where "listMcpTools env = Inr mcpTools"
    "last_item (messages request) = Some latest" "role latest = RoleUser"
    by (auto simp: starts_def)
  then have run: "run_chat env request = agentic_loop env ?chat ?m (initial_state latest)"
    by (rule run_chat_loop)
  obtain out sent where os: "agentic_loop env ?chat ?m (initial_state latest) = (out, sent)"
    by (cases "agentic_loop env ?chat ?m (initial_state latest)")
  from assms(2) have "\<exists>r. out = Inr r"
    by (intro loop_returns [OF os]) (auto simp: collaborators_return_def)
  then obtain r where out: "out = Inr r" ..
  note os' = os [unfolded out]
  from loop_iterations [OF os'] have it: "iterations r = int (length sent)" by simp
  from loop_toolCalls [OF os'] have tc: "length (toolCalls r) = requested_total env ?chat sent"
    by (simp add: requested_total_def)
  have fb: "\<exists>cs. reply_to env ?chat (take (Suc k) sent) = ToolsRequested cs" if "Suc k < length sent" for k
    using loop_fed_back [OF os, of k] that by auto
  from loop_sent [OF os] have le: "int (length sent) \<le> max 0 ?m" by auto
  have ex: "if sent = [] then message r = limit_message \<and> ?m \<le> 0
         else (case reply_to env ?chat sent of
            ModelThrew err \<Rightarrow> False
          | NoCandidate \<Rightarrow> message r = no_candidate_message
          | FinalAnswer textParts \<Rightarrow> message r = final_text textParts
          | ToolsRequested cs \<Rightarrow> message r = limit_message \<and> iterations r = ?m)"
  proof (cases "sent = []")
    case True
    with loop_exit [OF os'] show ?thesis by simp
  next
    case False
    then have "0 < int (length sent)" by simp
    with le have "int (length sent) \<le> ?m" by (simp add: max_def split: if_splits)
    with loop_exit [OF os'] False it show ?thesis
      by (auto split: Reply.splits)
  qed
  from run os out it tc fb ex show ?thesis by (intro that [of r sent]) simp_all
qed


lemma tool_loop_reply:
  "reply_to tool_loop_env chat sent = ToolsRequested [refund_call]"
  by (simp add: reply_to_def tool_loop_env_def tools_reply_def first_candidate_def refund_call_def)

lemma tool_loop_starts: "starts tool_loop_env (user_request limit)"
  by (simp add: starts_def tool_loop_env_def user_request_def last_item_def)

lemma tool_loop_returns: "collaborators_return tool_loop_env chat"
  unfolding collaborators_return_def
  by (simp add: tool_loop_reply) (simp add: tool_loop_env_def refund_call_def)



lemma callback_finish_rank:
  "callback (env\<lparr>finish_rank := rank\<rparr>) it i p = callback env it i p"
  by (cases p rule: throws_at_once.cases) (simp_all add: run_call_def Let_def split: sum.splits)

lemma callback_Inr_not_throws:
  "callback env it i p = Inr v \<Longrightarrow> \<not> throws_at_once p"
  by (cases p rule: throws_at_once.cases) simp_all

text \<open>A turn that fulfils gives the same responses under every other completion order.\<close>

lemma execute_function_calls_any_order:
  assumes "execute_function_calls env it cs records = Inr (records', resps)"
  shows "\<exists>rs. execute_function_calls (env\<lparr>finish_rank := rank\<rparr>) it cs records0 = Inr (rs, resps)"
proof -
  let ?env' = "env\<lparr>finish_rank := rank\<rparr>"
  note ok = execute_function_calls_Inr(1,2) [OF assms]
  have nt: "\<not> list_ex throws_at_once cs"
  proof
    assume "list_ex throws_at_once cs"
    then obtain i where i: "i < length cs" "throws_at_once (cs ! i)"
      by (auto simp: list_ex_iff in_set_conv_nth)
    from ok(2) [OF i(1)] callback_Inr_not_throws i(2) show False by blast
  qed
  have "\<exists>v. callback ?env' it i (cs ! i) = Inr v" if "i < length cs" for i
    using ok(2) [OF that] by (auto simp: callback_finish_rank)
  from execute_function_calls_ok [OF nt this, of records0]
  obtain rs resps' where e: "execute_function_calls ?env' it cs records0 = Inr (rs, resps')"
    by blast
  note ok' = execute_function_calls_Inr(1,2) [OF e]
  have "resps' = resps"
  proof (rule nth_equalityI)
    from ok(1) ok'(1) show "length resps' = length resps" by simp
  next
    fix i assume "i < length resps'"
    with ok'(1) have i: "i < length cs" by simp
    from ok(2) [OF i] ok'(2) [OF i] show "resps' ! i = resps ! i"
      by (auto simp: callback_finish_rank)
  qed
  with e show ?thesis by blast
qed

text \<open>
  Claim C4. Whenever the loop resumes the model after a turn of tool calls, the message it
  sends holds one result for every call the model had requested in that turn, each the
  result of the call at the same position of the request; and the same turn gives the same
  message under every other order in which the calls could have completed.
\<close>

theorem results_fed_back_in_request_order:
  assumes "run_chat env request = (out, sent)" and "Suc k < length sent"
  shows "\<exists>cs resps.
      reply_to env (chat_of env request) (take (Suc k) sent) = ToolsRequested cs \<and>
      sent ! Suc k = PartsInput resps \<and> length resps = length cs \<and>
      (\<forall>i<length cs. \<exists>rcd. callback env (int k + 1) i (cs ! i) = Inr (rcd, resps ! i)) \<and>
      (\<forall>rank records. \<exists>rs.
          execute_function_calls (env\<lparr>finish_rank := rank\<rparr>) (int k + 1) cs records
            = Inr (rs, resps))"
proof (cases rule: run_chat_cases [of env request])
  case (rejected err)
  with assms show ?thesis by simp
next
  case (looped latest)
  let ?chat = "chat_of env request"
  from looped assms(1)
  have run: "agentic_loop env ?chat (maxCalls_of request) (initial_state latest) = (out, sent)"
    by simp
  from loop_fed_back [OF run, of k] assms(2) obtain cs resps where
    r: "reply_to env ?chat (take (Suc k) sent) = ToolsRequested cs"
    and s: "sent ! Suc k = PartsInput resps" and l: "length resps = length cs"
    and c: "\<forall>i<length cs. \<exists>rcd. callback env (int k + 1) i (cs ! i) = Inr (rcd, resps ! i)"
    by auto
  have nt: "\<not> list_ex throws_at_once cs"
  proof
    assume "list_ex throws_at_once cs"
    then obtain i where i: "i < length cs" "throws_at_once (cs ! i)"
      by (auto simp: list_ex_iff in_set_conv_nth)
    with c callback_Inr_not_throws show False by blast
  qed
  from c have "\<And>i. i < length cs \<Longrightarrow> \<exists>v. callback env (int k + 1) i (cs ! i) = Inr v" by blast
  from execute_function_calls_ok [OF nt this, of "[]"] obtain rs0 resps0 where
    e: "execute_function_calls env (int k + 1) cs [] = Inr (rs0, resps0)" by blast
  note ok = execute_function_calls_Inr(1,2) [OF e]
  have "resps0 = resps"
  proof (rule nth_equalityI)
    from ok(1) l show "length resps0 = length resps" by simp
  next
    fix i assume "i < length resps0"
    with ok(1) have i: "i < length cs" by simp
    from ok(2) [OF i] c i show "resps0 ! i = resps ! i" by auto
  qed
  with e have e': "execute_function_calls env (int k + 1) cs [] = Inr (rs0, resps)" by simp
  have "\<forall>rank records. \<exists>rs.
          execute_function_calls (env\<lparr>finish_rank := rank\<rparr>) (int k + 1) cs records
            = Inr (rs, resps)"
    using execute_function_calls_any_order [OF e'] by blast
  with r s l c show ?thesis by blast
qed

lemma two_calls_turn:
  "execute_function_calls two_calls_env 1 [call_of ''A'', call_of ''B''] [] =
     Inr (toolCalls two_calls_response,
          [FunctionResponsePart ''A'' (Some (echo_item ''A'')),
           FunctionResponsePart ''B'' (Some (echo_item ''B''))])"
  by (simp add: execute_function_calls_def two_calls_env_def call_of_def completion_order_def
      run_call_def callMcpTool_def filled_def two_calls_response_def enumerate_eq_zip upt_rec
      Let_def)

lemma two_calls_reply1:
  "reply_to two_calls_env chat [m] = ToolsRequested [call_of ''A'', call_of ''B'']"
  by (simp add: reply_to_def two_calls_env_def tools_reply_def first_candidate_def call_of_def)

lemma two_calls_reply2:
  "reply_to two_calls_env chat [m1, m2] = FinalAnswer [TextPart ''done'']"
  by (simp add: reply_to_def two_calls_env_def tools_reply_def first_candidate_def)

lemma usage_of_updates [simp]:
  "usage_of (st\<lparr>toolCallRecords := records\<rparr>) = usage_of st"
  "usage_of (st\<lparr>currentMessage := msg\<rparr>) = usage_of st"
  by (simp_all add: usage_of_def)

lemma two_calls_usage:
  "usage_of (next_state two_calls_env chat st) = usage_of st"
  by (simp add: next_state_def two_calls_env_def tools_reply_def track_usage_def usage_of_def
      Let_def)

lemma two_calls_run:
  "run_chat two_calls_env (user_request None) = (Inr two_calls_response, two_calls_sent)"
proof -
  let ?chat = "chat_of two_calls_env (user_request None)"
  let ?st0 = "initial_state \<lparr>role = RoleUser, msg_content = ''refund order 1001''\<rparr>"
  let ?st1 = "(next_state two_calls_env ?chat ?st0)\<lparr>toolCallRecords := toolCalls two_calls_response,
      currentMessage := PartsInput [FunctionResponsePart ''A'' (Some (echo_item ''A'')),
           FunctionResponsePart ''B'' (Some (echo_item ''B''))]\<rparr>"
  have "run_chat two_calls_env (user_request None) = agentic_loop two_calls_env ?chat 10 ?st0"
    by (simp add: run_chat_def chat_of_def two_calls_env_def user_request_def last_item_def
        maxCalls_of_def)
  also have "\<dots> = agentic_loop two_calls_env ?chat 10 ?st1"
    by (subst agentic_loop_unfold)
      (simp add: initial_state_def two_calls_reply1 two_calls_turn)
  also have "\<dots> = (Inr two_calls_response, two_calls_sent)"
    by (subst agentic_loop_unfold)
      (simp add: two_calls_reply2 respond_def final_text_def two_calls_usage,
       simp add: initial_state_def two_calls_response_def two_calls_sent_def usage_of_def)
  finally show ?thesis .
qed

theorem results_fed_back_in_request_order_witness:
  "run_chat two_calls_env (user_request None) = (Inr two_calls_response, two_calls_sent) \<and>
   Suc 0 < length two_calls_sent \<and>
   map rec_name (toolCalls two_calls_response) = [''B'', ''A''] \<and>
   (\<exists>resps. two_calls_sent ! Suc 0 = PartsInput resps \<and> length resps = 2 \<and>
      (\<exists>rcd. callback two_calls_env 1 0 (call_of ''A'') = Inr (rcd, resps ! 0)) \<and>
      (\<exists>rcd. callback two_calls_env 1 1 (call_of ''B'') = Inr (rcd, resps ! 1)))"
proof -
  have len: "Suc 0 < length two_calls_sent" by (simp add: two_calls_sent_def)
  have take: "take (Suc 0) two_calls_sent = [TextInput ''refund order 1001'']"
    by (simp add: two_calls_sent_def)
  from results_fed_back_in_request_order [OF two_calls_run len]
  obtain cs resps where
    "reply_to two_calls_env (chat_of two_calls_env (user_request None))
        (take (Suc 0) two_calls_sent) = ToolsRequested cs"
    and s: "two_calls_sent ! Suc 0 = PartsInput resps" and l: "length resps = length cs"
    and c: "\<forall>i<length cs. \<exists>rcd. callback two_calls_env (int 0 + 1) i (cs ! i) = Inr (rcd, resps ! i)"
    by blast
  with take have cs: "cs = [call_of ''A'', call_of ''B'']" by (simp add: two_calls_reply1)
  from c cs have "\<exists>rcd. callback two_calls_env 1 0 (call_of ''A'') = Inr (rcd, resps ! 0)"
    by (auto dest: spec [of _ 0])
  moreover from c cs have "\<exists>rcd. callback two_calls_env 1 1 (call_of ''B'') = Inr (rcd, resps ! 1)"
    by (auto dest: spec [of _ 1])
  moreover have "map rec_name (toolCalls two_calls_response) = [''B'', ''A'']"
    by (simp add: two_calls_response_def)
  ultimately show ?thesis using two_calls_run len s l cs by auto
qed

text \<open>
  Claim C3, amended. Once the connection is there, \<^verbatim>\<open>callMcpTool\<close> returns a result and never
  throws; when \<^verbatim>\<open>client.callTool\<close> fails, the result is flagged \<^verbatim>\<open>isError\<close> and its one content
  item is the text \<^verbatim>\<open>Tool execution failed: ...\<close>. The record of such a call holds that content
  item as its result (the flag is not part of the record), the same item is the function
  response sent to the model, and the loop goes on with the next iteration.
\<close>

theorem tool_failure_is_returned:
  "(\<exists>res. callMcpTool (Inr client) callTool toolName args = Inr res) \<and>
   (callTool client toolName args = Inl err \<longrightarrow>
      callMcpTool (Inr client) callTool toolName args
        = Inr \<lparr>content = [failed_item err], isError = Some True\<rparr>) \<and>
   (getMcpClient_at env it i = Inr client \<and>
    client_callTool env it i client (fc_name fc)
      (case fc_args fc of None \<Rightarrow> JObj [] | Some a \<Rightarrow> a) = Inl err \<longrightarrow>
      callback env it i (FunctionCallPart (Some fc))
        = Inr (\<lparr>rec_name = fc_name fc,
                 rec_input = (case fc_args fc of None \<Rightarrow> JObj [] | Some a \<Rightarrow> a),
                 rec_result = Some (failed_item err), durationMs = elapsedMs env it i\<rparr>,
               FunctionResponsePart (fc_name fc) (Some (failed_item err)))) \<and>
   (iterationCount st < m \<and>
    reply_to env chat (sentMessages st @ [currentMessage st]) = ToolsRequested cs \<and>
    \<not> list_ex throws_at_once cs \<and>
    (\<forall>i. \<exists>c. getMcpClient_at env (iterationCount st + 1) i = Inr c) \<longrightarrow>
      (\<exists>records resps.
          execute_function_calls env (iterationCount st + 1) cs (toolCallRecords st)
            = Inr (records, resps) \<and>
          length resps = length cs \<and>
          agentic_loop env chat m st =
            agentic_loop env chat m
              ((next_state env chat st)\<lparr>toolCallRecords := records,
                  currentMessage := PartsInput resps\<rparr>)))"
proof (intro conjI impI)
  show "\<exists>res. callMcpTool (Inr client) callTool toolName args = Inr res"
    by (simp add: callMcpTool_def split: sum.splits)
  show "callMcpTool (Inr client) callTool toolName args
        = Inr \<lparr>content = [failed_item err], isError = Some True\<rparr>"
    if "callTool client toolName args = Inl err"
    using that by (simp add: callMcpTool_def)
  show "callback env it i (FunctionCallPart (Some fc))
        = Inr (\<lparr>rec_name = fc_name fc,
                 rec_input = (case fc_args fc of None \<Rightarrow> JObj [] | Some a \<Rightarrow> a),
                 rec_result = Some (failed_item err), durationMs = elapsedMs env it i\<rparr>,
               FunctionResponsePart (fc_name fc) (Some (failed_item err)))"
    if "getMcpClient_at env it i = Inr client \<and>
        client_callTool env it i client (fc_name fc)
          (case fc_args fc of None \<Rightarrow> JObj [] | Some a \<Rightarrow> a) = Inl err"
    using that by (simp add: run_call_def callMcpTool_def Let_def)
  assume a: "iterationCount st < m \<and>
    reply_to env chat (sentMessages st @ [currentMessage st]) = ToolsRequested cs \<and>
    \<not> list_ex throws_at_once cs \<and>
    (\<forall>i. \<exists>c. getMcpClient_at env (iterationCount st + 1) i = Inr c)"
  have "\<exists>v. callback env (iterationCount st + 1) i (cs ! i) = Inr v" if "i < length cs" for i
  proof -
    from a that have "\<not> throws_at_once (cs ! i)" by (auto simp: list_ex_iff)
    moreover from a obtain c where "getMcpClient_at env (iterationCount st + 1) i = Inr c"
      by blast
    ultimately show ?thesis by (rule callback_ok)
  qed
  with a obtain records resps where
    e: "execute_function_calls env (iterationCount st + 1) cs (toolCallRecords st)
          = Inr (records, resps)"
    using execute_function_calls_ok [of cs env "iterationCount st + 1" "toolCallRecords st"]
    by blast
  from execute_function_calls_Inr(1) [OF e] have l: "length resps = length cs" .
  from a e have "agentic_loop env chat m st =
            agentic_loop env chat m
              ((next_state env chat st)\<lparr>toolCallRecords := records,
                  currentMessage := PartsInput resps\<rparr>)"
    by (subst agentic_loop_unfold) simp
  with e l show "\<exists>records resps.
          execute_function_calls env (iterationCount st + 1) cs (toolCallRecords st)
            = Inr (records, resps) \<and>
          length resps = length cs \<and>
          agentic_loop env chat m st =
            agentic_loop env chat m
              ((next_state env chat st)\<lparr>toolCallRecords := records,
                  currentMessage := PartsInput resps\<rparr>)"
    by blast
qed

theorem tool_failure_is_returned_witness:
  "callMcpTool (Inr 0) (client_callTool tool_loop_env 1 0) ''refund_order'' (JObj [])
     = Inr \<lparr>content = [failed_item ''Error: Request timed out''], isError = Some True\<rparr> \<and>
   callback tool_loop_env 1 0 refund_call = Inr (timed_out_record, timed_out_response) \<and>
   (\<exists>records resps.
      execute_function_calls tool_loop_env 1 [refund_call] [] = Inr (records, resps) \<and>
      length resps = 1 \<and>
      agentic_loop tool_loop_env (chat_of tool_loop_env (user_request (Some 3))) 3
          (initial_state \<lparr>role = RoleUser, msg_content = ''refund order 1001''\<rparr>) =
        agentic_loop tool_loop_env (chat_of tool_loop_env (user_request (Some 3))) 3
          ((next_state tool_loop_env (chat_of tool_loop_env (user_request (Some 3)))
              (initial_state \<lparr>role = RoleUser, msg_content = ''refund order 1001''\<rparr>))
             \<lparr>toolCallRecords := records, currentMessage := PartsInput resps\<rparr>))"
proof -
  let ?fc = "\<lparr>fc_name = ''refund_order'', fc_args = None\<rparr>"
  let ?st = "initial_state \<lparr>role = RoleUser, msg_content = ''refund order 1001''\<rparr>"
  let ?chat = "chat_of tool_loop_env (user_request (Some 3))"
  note t = tool_failure_is_returned [where client = 0
      and callTool = "client_callTool tool_loop_env 1 0" and toolName = "''refund_order''"
      and args = "JObj []" and err = "''Error: Request timed out''" and env = tool_loop_env
      and it = 1 and i = 0 and fc = ?fc and st = ?st and m = 3 and chat = ?chat
      and cs = "[refund_call]"]
  have h1: "client_callTool tool_loop_env 1 0 0 ''refund_order'' (JObj [])
      = Inl ''Error: Request timed out''"
    by (simp add: tool_loop_env_def)
  have h2: "getMcpClient_at tool_loop_env 1 0 = Inr 0 \<and>
      client_callTool tool_loop_env 1 0 0 (fc_name ?fc)
        (case fc_args ?fc of None \<Rightarrow> JObj [] | Some a \<Rightarrow> a) = Inl ''Error: Request timed out''"
    by (simp add: tool_loop_env_def)
  have h3: "iterationCount ?st < 3 \<and>
      reply_to tool_loop_env ?chat (sentMessages ?st @ [currentMessage ?st])
        = ToolsRequested [refund_call] \<and>
      \<not> list_ex throws_at_once [refund_call] \<and>
      (\<forall>i. \<exists>c. getMcpClient_at tool_loop_env (iterationCount ?st + 1) i = Inr c)"
    by (simp add: tool_loop_reply) (simp add: refund_call_def tool_loop_env_def)
  from t h1 have c1: "callMcpTool (Inr 0) (client_callTool tool_loop_env 1 0) ''refund_order''
      (JObj []) = Inr \<lparr>content = [failed_item ''Error: Request timed out''], isError = Some True\<rparr>"
    by blast
  from t h2 have c2: "callback tool_loop_env 1 0 refund_call
      = Inr (timed_out_record, timed_out_response)"
    by (simp add: refund_call_def timed_out_record_def timed_out_response_def tool_loop_env_def)
  from t h3 have c3: "\<exists>records resps.
      execute_function_calls tool_loop_env (iterationCount ?st + 1) [refund_call]
          (toolCallRecords ?st) = Inr (records, resps) \<and>
      length resps = length [refund_call] \<and>
      agentic_loop tool_loop_env ?chat 3 ?st =
        agentic_loop tool_loop_env ?chat 3
          ((next_state tool_loop_env ?chat ?st)
             \<lparr>toolCallRecords := records, currentMessage := PartsInput resps\<rparr>)"
    by blast
  from c1 c2 c3 show ?thesis by simp
qed

text \<open>
  Claim C3 as stated fails: a failure of \<^verbatim>\<open>getMcpClient\<close> inside \<^verbatim>\<open>callMcpTool\<close> is thrown, and
  the record of a failed call has the result \<^verbatim>\<open>{type, text}\<close>, not \<^verbatim>\<open>{error: true, message}\<close>.
\<close>

theorem failed_call_record_counterexample:
  "callMcpTool (Inl ''Error: Failed to connect to MCP server'')
       (client_callTool tool_loop_env 1 0) ''refund_order'' (JObj [])
     = Inl ''Error: Failed to connect to MCP server'' \<and>
   callback tool_loop_env 1 0 refund_call = Inr (timed_out_record, timed_out_response) \<and>
   \<not> error_shaped (rec_result timed_out_record)"
  by (simp add: callMcpTool_def tool_loop_env_def refund_call_def run_call_def Let_def
      timed_out_record_def timed_out_response_def error_shaped_def failed_item_def)

text \<open>
  Claim C5, amended. When tool discovery succeeded, the history ends with a user message
  and no collaborator throws, \<^verbatim>\<open>sendMessageToGemini\<close> returns a response whose iteration count
  is the number of model round-trips and whose records cover every call the model requested.
  All replies before the last requested tools; the run ends at a reply without candidate
  (the apology message), at a reply without function calls (the final text), or at the
  ceiling (the limit message). A history that is empty or does not end with a user message
  is rejected by throwing, before any model call.
\<close>

theorem loop_returns_response:
  "(starts env request \<and> collaborators_return env (chat_of env request) \<longrightarrow>
      (\<exists>r. sendMessageToGemini env request = Inr r \<and>
           iterations r = int (model_round_trips env request) \<and>
           length (toolCalls r) =
             requested_total env (chat_of env request) (snd (run_chat env request)) \<and>
           (\<forall>k. Suc k < model_round_trips env request \<longrightarrow>
              (\<exists>cs. reply_to env (chat_of env request) (take (Suc k) (snd (run_chat env request)))
                 = ToolsRequested cs)) \<and>
           (if snd (run_chat env request) = []
            then message r = limit_message \<and> maxCalls_of request \<le> 0
            else (case reply_to env (chat_of env request) (snd (run_chat env request)) of
               ModelThrew err \<Rightarrow> False
             | NoCandidate \<Rightarrow> message r = no_candidate_message
             | FinalAnswer textParts \<Rightarrow> message r = final_text textParts
             | ToolsRequested cs \<Rightarrow>
                 message r = limit_message \<and> iterations r = maxCalls_of request)))) \<and>
   ((\<exists>mcpTools. listMcpTools env = Inr mcpTools) \<and> \<not> starts env request \<longrightarrow>
      sendMessageToGemini env request = Inl ''Last message must be from user'' \<and>
      model_round_trips env request = 0)"
proof (intro conjI impI)
  assume "starts env request \<and> collaborators_return env (chat_of env request)"
  then have s: "starts env request" and c: "collaborators_return env (chat_of env request)"
    by simp_all
  from run_chat_returns [OF s c] obtain r sent where
    run: "run_chat env request = (Inr r, sent)"
    and rest: "iterations r = int (length sent)"
      "length (toolCalls r) = requested_total env (chat_of env request) sent"
      "\<And>k. Suc k < length sent \<Longrightarrow>
           \<exists>cs. reply_to env (chat_of env request) (take (Suc k) sent) = ToolsRequested cs"
      "if sent = [] then message r = limit_message \<and> maxCalls_of request \<le> 0
         else (case reply_to env (chat_of env request) sent of
            ModelThrew err \<Rightarrow> False
          | NoCandidate \<Rightarrow> message r = no_candidate_message
          | FinalAnswer textParts \<Rightarrow> message r = final_text textParts
          | ToolsRequested cs \<Rightarrow> message r = limit_message \<and> iterations r = maxCalls_of request)"
    by blast
  from run have f: "sendMessageToGemini env request = Inr r" and sn: "snd (run_chat env request) = sent"
    and n: "model_round_trips env request = length sent"
    by (simp_all add: sendMessageToGemini_def model_round_trips_def)
  from rest show "\<exists>r. sendMessageToGemini env request = Inr r \<and>
           iterations r = int (model_round_trips env request) \<and>
           length (toolCalls r) =
             requested_total env (chat_of env request) (snd (run_chat env request)) \<and>
           (\<forall>k. Suc k < model_round_trips env request \<longrightarrow>
              (\<exists>cs. reply_to env (chat_of env request) (take (Suc k) (snd (run_chat env request)))
                 = ToolsRequested cs)) \<and>
           (if snd (run_chat env request) = []
            then message r = limit_message \<and> maxCalls_of request \<le> 0
            else (case reply_to env (chat_of env request) (snd (run_chat env request)) of
               ModelThrew err \<Rightarrow> False
             | NoCandidate \<Rightarrow> message r = no_candidate_message
             | FinalAnswer textParts \<Rightarrow> message r = final_text textParts
             | ToolsRequested cs \<Rightarrow>
                 message r = limit_message \<and> iterations r = maxCalls_of request))"
    unfolding f sn n by (intro exI [of _ r]) simp
next
  assume a: "(\<exists>mcpTools. listMcpTools env = Inr mcpTools) \<and> \<not> starts env request"
  then obtain mcpTools where l: "listMcpTools env = Inr mcpTools" by blast
  with a have "run_chat env request = (Inl ''Last message must be from user'', [])"
    by (auto simp: run_chat_def starts_def split: option.splits)
  then show "sendMessageToGemini env request = Inl ''Last message must be from user''"
    and "model_round_trips env request = 0"
    by (simp_all add: sendMessageToGemini_def model_round_trips_def)
qed

theorem loop_returns_response_witness:
  "starts tool_loop_env (user_request (Some 3)) \<and>
   collaborators_return tool_loop_env (chat_of tool_loop_env (user_request (Some 3))) \<and>
   (\<exists>r. sendMessageToGemini tool_loop_env (user_request (Some 3)) = Inr r \<and>
        iterations r = int (model_round_trips tool_loop_env (user_request (Some 3))) \<and>
        message r = limit_message \<and> iterations r = 3) \<and>
   (\<exists>mcpTools. listMcpTools tool_loop_env = Inr mcpTools) \<and>
   \<not> starts tool_loop_env empty_request \<and>
   sendMessageToGemini tool_loop_env empty_request = Inl ''Last message must be from user'' \<and>
   model_round_trips tool_loop_env empty_request = 0"
proof -
  let ?req = "user_request (Some 3)"
  let ?chat = "chat_of tool_loop_env ?req"
  have s: "starts tool_loop_env ?req" by (rule tool_loop_starts)
  have c: "collaborators_return tool_loop_env ?chat" by (rule tool_loop_returns)
  have l: "\<exists>mcpTools. listMcpTools tool_loop_env = Inr mcpTools"
    by (simp add: tool_loop_env_def)
  have n: "\<not> starts tool_loop_env empty_request"
    by (simp add: starts_def empty_request_def last_item_def)
  have m: "maxCalls_of ?req = 3" by (simp add: maxCalls_of_def user_request_def)
  from loop_returns_response [of tool_loop_env ?req] s c obtain r where
    r: "sendMessageToGemini tool_loop_env ?req = Inr r"
      "iterations r = int (model_round_trips tool_loop_env ?req)"
    and e: "if snd (run_chat tool_loop_env ?req) = []
            then message r = limit_message \<and> maxCalls_of ?req \<le> 0
            else (case reply_to tool_loop_env ?chat (snd (run_chat tool_loop_env ?req)) of
               ModelThrew err \<Rightarrow> False
             | NoCandidate \<Rightarrow> message r = no_candidate_message
             | FinalAnswer textParts \<Rightarrow> message r = final_text textParts
             | ToolsRequested cs \<Rightarrow>
                 message r = limit_message \<and> iterations r = maxCalls_of ?req)"
    by blast
  from e m have "message r = limit_message \<and> iterations r = 3"
    by (simp add: tool_loop_reply split: if_splits)
  with r have ex: "\<exists>r. sendMessageToGemini tool_loop_env ?req = Inr r \<and>
        iterations r = int (model_round_trips tool_loop_env ?req) \<and>
        message r = limit_message \<and> iterations r = 3" by blast
  from loop_returns_response [of tool_loop_env empty_request] l n
  have "sendMessageToGemini tool_loop_env empty_request = Inl ''Last message must be from user'' \<and>
      model_round_trips tool_loop_env empty_request = 0" by blast
  with s c ex l n show ?thesis by blast
qed

text \<open>
  Claim C5 as stated fails: on an empty history the function throws.
\<close>

theorem malformed_history_counterexample:
  "sendMessageToGemini tool_loop_env empty_request = Inl ''Last message must be from user''"
  by (simp add: sendMessageToGemini_def run_chat_def tool_loop_env_def empty_request_def
      last_item_def)

section \<open>Properties of the controllers\<close>

lemma write_sse_event_simps:
  "stream_closed (write_sse_event s event data ev_id) = stream_closed s"
  "close_calls (write_sse_event s event data ev_id) = close_calls s"
  "frames (write_sse_event s event data ev_id) =
     (if stream_closed s then frames s
      else frames s @ [\<lparr>event_id = ev_id, event_name = event, event_data = data\<rparr>])"
  by (simp_all add: write_sse_event_def stream_write_def)

lemma write_sse_event_extends:
  "\<exists>more. frames (write_sse_event s event data ev_id) = frames s @ more"
  by (simp add: write_sse_event_simps)

lemma handle_tool_call_extends:
  "\<exists>more. frames (fst (handle_tool_call env s tool_name parameters)) = frames s @ more"
  by (auto simp: handle_tool_call_def write_sse_event_simps Let_def split: sum.splits)

lemma handle_resource_query_extends:
  "\<exists>more. frames (fst (handle_resource_query env s resource_uri parameters)) = frames s @ more"
  by (auto simp: handle_resource_query_def write_sse_event_simps split: sum.splits)

lemma run_steps_extends:
  "\<exists>more. frames (fst (run_steps env sts end s)) = frames s @ more"
proof (induction env sts "end" s rule: run_steps.induct)
  case (2 env tool_name parameters rest e s)
  obtain s' r where h: "handle_tool_call env s tool_name parameters = (s', r)"
    by (cases "handle_tool_call env s tool_name parameters")
  from handle_tool_call_extends [of env s tool_name parameters] h obtain m1 where
    m1: "frames s' = frames s @ m1" by auto
  show ?case
  proof (cases r)
    case (Inl e')
    with h m1 show ?thesis by simp
  next
    case (Inr v)
    from "2.IH" [OF h [symmetric] Inr] obtain m2 where
      "frames (fst (run_steps env rest e s')) = frames s' @ m2" ..
    with h Inr m1 show ?thesis by simp
  qed
next
  case (3 env resource_uri parameters rest e s)
  obtain s' r where h: "handle_resource_query env s resource_uri parameters = (s', r)"
    by (cases "handle_resource_query env s resource_uri parameters")
  from handle_resource_query_extends [of env s resource_uri parameters] h obtain m1 where
    m1: "frames s' = frames s @ m1" by auto
  show ?case
  proof (cases r)
    case (Inl e')
    with h m1 show ?thesis by simp
  next
    case (Inr v)
    from "3.IH" [OF h [symmetric] Inr] obtain m2 where
      "frames (fst (run_steps env rest e s')) = frames s' @ m2" ..
    with h Inr m1 show ?thesis by simp
  qed
next
  case (4 env error_message rest e s)
  then show ?case
    by (auto simp: handle_protocol_error_def write_sse_event_simps)
next
  case (5 env frame rest e s)
  then show ?case by (auto simp: stream_write_def)
next
  case (6 env rest e s)
  then show ?case by (auto simp: stream_close_def)
qed simp

lemma rescue_stream_extends:
  "\<exists>more. frames (fst (rescue_stream env s raised)) = frames s @ more"
  by (auto simp: rescue_stream_def write_sse_event_simps split: option.splits)

lemma ensure_closed_frames [simp]: "frames (ensure_closed s) = frames s"
  by (simp add: ensure_closed_def stream_close_def)

lemma stream_action_first_frame:
  assumes "\<not> stream_closed s"
  shows "\<exists>more. frames (fst (stream_action env run s)) =
     frames s @ \<lparr>event_id = None, event_name = Some ''connected'',
                  event_data = connected_data env\<rparr> # more"
proof -
  let ?s1 = "write_sse_event s (Some ''connected'') (connected_data env) None"
  obtain s2 raised where h: "handle_stream env run ?s1 = (s2, raised)"
    by (cases "handle_stream env run ?s1")
  obtain s3 propagated where r: "rescue_stream env s2 raised = (s3, propagated)"
    by (cases "rescue_stream env s2 raised")
  from run_steps_extends [of env "steps run" "ending run" ?s1] h obtain m1 where
    "frames s2 = frames ?s1 @ m1" by (auto simp: handle_stream_def)
  moreover from rescue_stream_extends [of env s2 raised] r obtain m2 where
    "frames s3 = frames s2 @ m2" by auto
  moreover from assms have "frames ?s1 = frames s @
      [\<lparr>event_id = None, event_name = Some ''connected'', event_data = connected_data env\<rparr>]"
    by (simp add: write_sse_event_simps)
  ultimately show ?thesis using h r by (simp add: stream_action_def)
qed

text \<open>
  Claim C2. A request to the streaming endpoint whose credential header is absent or differs
  from the configured secret, or that comes when no secret is configured (the variable is
  unset or blank), is answered 401 Unauthorized: no protocol handler is created and nothing
  is written to the stream. A request whose credential equals the configured secret is not
  rejected, gets its handler, and the first frame on its stream is the \<^verbatim>\<open>connected\<close> event.
\<close>

theorem stream_authentication:
  "((map_of (headers request) ''X-MCP-Api-Key'' = None \<or>
     map_of (headers request) ''X-MCP-Api-Key'' \<noteq> MCP_API_KEY env \<or>
     \<not> present (MCP_API_KEY env)) \<longrightarrow>
      status (sse_response (streams_stream env run request)) = Some 401 \<and>
      body (sse_response (streams_stream env run request)) = Some unauthorized_body \<and>
      handlers_created (streams_stream env run request) = 0 \<and>
      frames (stream (sse_response (streams_stream env run request))) = []) \<and>
   (map_of (headers request) ''X-MCP-Api-Key'' = MCP_API_KEY env \<and>
    present (MCP_API_KEY env) \<longrightarrow>
      status (sse_response (streams_stream env run request)) \<noteq> Some 401 \<and>
      handlers_created (streams_stream env run request) = 1 \<and>
      (\<exists>more. frames (stream (sse_response (streams_stream env run request))) =
         \<lparr>event_id = None, event_name = Some ''connected'',
          event_data = connected_data env\<rparr> # more))"
proof (intro conjI impI)
  assume bad: "map_of (headers request) ''X-MCP-Api-Key'' = None \<or>
     map_of (headers request) ''X-MCP-Api-Key'' \<noteq> MCP_API_KEY env \<or>
     \<not> present (MCP_API_KEY env)"
  then have rej: "authenticate_mcp_client env request fresh_response =
      fresh_response\<lparr>status := Some 401, body := Some unauthorized_body\<rparr>"
    by (auto simp: authenticate_mcp_client_def Let_def)
  then have out: "streams_stream env run request =
      \<lparr>sse_response = fresh_response\<lparr>status := Some 401, body := Some unauthorized_body\<rparr>,
       sse_raised = None, handlers_created = 0\<rparr>"
    by (simp add: streams_stream_def performed_def)
  from out show "status (sse_response (streams_stream env run request)) = Some 401"
    and "body (sse_response (streams_stream env run request)) = Some unauthorized_body"
    and "handlers_created (streams_stream env run request) = 0"
    and "frames (stream (sse_response (streams_stream env run request))) = []"
    by (simp_all add: fresh_response_def)
next
  assume good: "map_of (headers request) ''X-MCP-Api-Key'' = MCP_API_KEY env \<and>
    present (MCP_API_KEY env)"
  then have acc: "authenticate_mcp_client env request fresh_response = fresh_response"
    by (simp add: authenticate_mcp_client_def Let_def)
  let ?r = "set_sse_headers fresh_response"
  obtain s p where sa: "stream_action env run (stream ?r) = (s, p)"
    by (cases "stream_action env run (stream ?r)")
  from acc sa have out: "streams_stream env run request =
      \<lparr>sse_response = ?r\<lparr>stream := s\<rparr>, sse_raised = p, handlers_created = 1\<rparr>"
    by (simp add: streams_stream_def performed_def fresh_response_def set_sse_headers_def)
  from out show "status (sse_response (streams_stream env run request)) \<noteq> Some 401"
    and "handlers_created (streams_stream env run request) = 1"
    by (simp_all add: fresh_response_def set_sse_headers_def)
  have "\<not> stream_closed (stream ?r)" and "frames (stream ?r) = []"
    by (simp_all add: fresh_response_def set_sse_headers_def)
  with stream_action_first_frame [of "stream ?r" env run] sa out
  show "\<exists>more. frames (stream (sse_response (streams_stream env run request))) =
         \<lparr>event_id = None, event_name = Some ''connected'',
          event_data = connected_data env\<rparr> # more"
    by simp
qed

theorem stream_authentication_witness:
  "map_of (headers (sse_request [])) ''X-MCP-Api-Key'' = None \<and>
   status (sse_response (streams_stream dev_env quiet_run (sse_request []))) = Some 401 \<and>
   handlers_created (streams_stream dev_env quiet_run (sse_request [])) = 0 \<and>
   frames (stream (sse_response (streams_stream dev_env quiet_run (sse_request [])))) = [] \<and>
   map_of (headers (sse_request [(''X-MCP-Api-Key'', ''my-secret-key-123'')])) ''X-MCP-Api-Key''
     = MCP_API_KEY dev_env \<and>
   present (MCP_API_KEY dev_env) \<and>
   handlers_created (streams_stream dev_env quiet_run
      (sse_request [(''X-MCP-Api-Key'', ''my-secret-key-123'')])) = 1 \<and>
   (\<exists>more. frames (stream (sse_response (streams_stream dev_env quiet_run
        (sse_request [(''X-MCP-Api-Key'', ''my-secret-key-123'')])))) =
      \<lparr>event_id = None, event_name = Some ''connected'',
       event_data = connected_data dev_env\<rparr> # more)"
proof -
  let ?good = "sse_request [(''X-MCP-Api-Key'', ''my-secret-key-123'')]"
  have a: "map_of (headers (sse_request [])) ''X-MCP-Api-Key'' = None"
    by (simp add: sse_request_def)
  have b: "map_of (headers ?good) ''X-MCP-Api-Key'' = MCP_API_KEY dev_env"
    by (simp add: sse_request_def dev_env_def)
  have c: "present (MCP_API_KEY dev_env)"
    by (simp add: dev_env_def blank_def whitespace_def)
  from stream_authentication [of "sse_request []" dev_env quiet_run] a
  have "status (sse_response (streams_stream dev_env quiet_run (sse_request []))) = Some 401 \<and>
   handlers_created (streams_stream dev_env quiet_run (sse_request [])) = 0 \<and>
   frames (stream (sse_response (streams_stream dev_env quiet_run (sse_request [])))) = []"
    by blast
  moreover from stream_authentication [of ?good dev_env quiet_run] b c
  have "handlers_created (streams_stream dev_env quiet_run ?good) = 1 \<and>
   (\<exists>more. frames (stream (sse_response (streams_stream dev_env quiet_run ?good))) =
      \<lparr>event_id = None, event_name = Some ''connected'',
       event_data = connected_data dev_env\<rparr> # more)"
    by blast
  ultimately show ?thesis using a b c by blast
qed





lemma routes_tools_execute:
  "routes env POST [''mcp'', ''tools'', tool_name] =
     (if env = Development then Some (McpToolsExecute tool_name) else None)"
  by (simp add: routes_def)

lemma routes_tools_index:
  "routes env GET [''mcp'', ''tools''] = (if env = Development then Some McpToolsIndex else None)"
  by (simp add: routes_def)

text \<open>
  Claim C9, amended. Outside the development environment neither tool route is drawn and
  the controller answers 403 without executing anything. In development,
  \<^verbatim>\<open>POST /mcp/tools/:tool_name\<close> without a valid credential is answered 401 and no tool runs,
  by the same check as the streaming endpoint's; \<^verbatim>\<open>GET /mcp/tools\<close> is answered 200 whatever
  the credential.
\<close>

theorem development_interface:
  "(rails_env env \<noteq> Development \<longrightarrow>
      serve env run (request\<lparr>http_method := POST, path := [''mcp'', ''tools'', tool_name]\<rparr>)
        = NotFound \<and>
      serve env run (request\<lparr>http_method := GET, path := [''mcp'', ''tools'']\<rparr>) = NotFound \<and>
      status (tools_index env request) = Some 403 \<and>
      status (exec_response (tools_execute env tool_name request)) = Some 403 \<and>
      executions (tools_execute env tool_name request) = []) \<and>
   (rails_env env = Development \<and>
    \<not> (present (map_of (headers request) ''X-MCP-Api-Key'') \<and> present (MCP_API_KEY env) \<and>
       map_of (headers request) ''X-MCP-Api-Key'' = MCP_API_KEY env) \<longrightarrow>
      status (exec_response (tools_execute env tool_name request)) = Some 401 \<and>
      body (exec_response (tools_execute env tool_name request)) = Some unauthorized_body \<and>
      executions (tools_execute env tool_name request) = [] \<and>
      exec_raised (tools_execute env tool_name request) = None) \<and>
   tools_authenticate_mcp_client env request = authenticate_mcp_client env request \<and>
   (rails_env env = Development \<longrightarrow>
      status (tools_index env request) = Some 200 \<and>
      serve env run (request\<lparr>http_method := GET, path := [''mcp'', ''tools'']\<rparr>)
        = ToolsListed (tools_index env request))"
proof (intro conjI impI)
  assume nd: "rails_env env \<noteq> Development"
  then show "serve env run (request\<lparr>http_method := POST, path := [''mcp'', ''tools'', tool_name]\<rparr>)
        = NotFound"
    and "serve env run (request\<lparr>http_method := GET, path := [''mcp'', ''tools'']\<rparr>) = NotFound"
    by (simp_all add: serve_def routes_tools_execute routes_tools_index)
  from nd show "status (tools_index env request) = Some 403"
    by (simp add: tools_index_def ensure_development_environment_def performed_def)
  from nd show "status (exec_response (tools_execute env tool_name request)) = Some 403"
    and "executions (tools_execute env tool_name request) = []"
    by (simp_all add: tools_execute_def ensure_development_environment_def performed_def)
next
  assume a: "rails_env env = Development \<and>
    \<not> (present (map_of (headers request) ''X-MCP-Api-Key'') \<and> present (MCP_API_KEY env) \<and>
       map_of (headers request) ''X-MCP-Api-Key'' = MCP_API_KEY env)"
  then have "tools_execute env tool_name request =
      \<lparr>exec_response = fresh_response\<lparr>status := Some 401, body := Some unauthorized_body\<rparr>,
       executions = [], exec_raised = None\<rparr>"
    by (auto simp: tools_execute_def ensure_development_environment_def performed_def
        tools_authenticate_mcp_client_def fresh_response_def Let_def)
  then show "status (exec_response (tools_execute env tool_name request)) = Some 401"
    and "body (exec_response (tools_execute env tool_name request)) = Some unauthorized_body"
    and "executions (tools_execute env tool_name request) = []"
    and "exec_raised (tools_execute env tool_name request) = None"
    by simp_all
next
  show "tools_authenticate_mcp_client env request = authenticate_mcp_client env request"
    by (rule ext) (simp add: tools_authenticate_mcp_client_def authenticate_mcp_client_def)
next
  assume d: "rails_env env = Development"
  then show "status (tools_index env request) = Some 200"
    by (simp add: tools_index_def ensure_development_environment_def performed_def
        fresh_response_def Let_def)
  from d show "serve env run (request\<lparr>http_method := GET, path := [''mcp'', ''tools'']\<rparr>)
        = ToolsListed (tools_index env request)"
    by (simp add: serve_def routes_tools_index tools_index_def)
qed

theorem development_interface_witness:
  "rails_env production_env \<noteq> Development \<and>
   serve production_env quiet_run (tools_request POST [''mcp'', ''tools'', ''refund_order''] [])
     = NotFound \<and>
   serve production_env quiet_run (tools_request GET [''mcp'', ''tools''] []) = NotFound \<and>
   rails_env dev_env = Development \<and>
   \<not> (present (map_of (headers (tools_request POST [''mcp'', ''tools'', ''refund_order''] []))
         ''X-MCP-Api-Key'') \<and> present (MCP_API_KEY dev_env) \<and>
      map_of (headers (tools_request POST [''mcp'', ''tools'', ''refund_order''] []))
         ''X-MCP-Api-Key'' = MCP_API_KEY dev_env) \<and>
   status (exec_response (tools_execute dev_env ''refund_order''
      (tools_request POST [''mcp'', ''tools'', ''refund_order''] []))) = Some 401 \<and>
   executions (tools_execute dev_env ''refund_order''
      (tools_request POST [''mcp'', ''tools'', ''refund_order''] [])) = [] \<and>
   status (tools_index dev_env (tools_request GET [''mcp'', ''tools''] [])) = Some 200"
proof -
  let ?post = "tools_request POST [''mcp'', ''tools'', ''refund_order''] []"
  let ?get = "tools_request GET [''mcp'', ''tools''] []"
  have p: "rails_env production_env \<noteq> Development"
    by (simp add: production_env_def)
  have d: "rails_env dev_env = Development" by (simp add: dev_env_def)
  have n: "\<not> (present (map_of (headers ?post) ''X-MCP-Api-Key'') \<and> present (MCP_API_KEY dev_env) \<and>
      map_of (headers ?post) ''X-MCP-Api-Key'' = MCP_API_KEY dev_env)"
    by (simp add: tools_request_def)
  have e1: "?post\<lparr>http_method := POST, path := [''mcp'', ''tools'', ''refund_order'']\<rparr> = ?post"
    and e2: "?get\<lparr>http_method := GET, path := [''mcp'', ''tools'']\<rparr> = ?get"
    by (simp_all add: tools_request_def)
  from development_interface [where env = production_env and run = quiet_run and request = "?post"
      and tool_name = "''refund_order''"] p e1
  have "serve production_env quiet_run ?post = NotFound" by simp
  moreover from development_interface [where env = production_env and run = quiet_run and request = "?get"
      and tool_name = "''refund_order''"] p e2
  have "serve production_env quiet_run ?get = NotFound" by simp
  moreover from development_interface [where env = dev_env and run = quiet_run and request = "?post"
      and tool_name = "''refund_order''"] d n
  have "status (exec_response (tools_execute dev_env ''refund_order'' ?post)) = Some 401 \<and>
      executions (tools_execute dev_env ''refund_order'' ?post) = []" by blast
  moreover from development_interface [where env = dev_env and run = quiet_run and request = "?get"
      and tool_name = "''refund_order''"] d
  have "status (tools_index dev_env ?get) = Some 200" by blast
  ultimately show ?thesis using p d n by blast
qed

text \<open>
  Claim C9 as stated fails: in development the tool list is served to a request without
  credential.
\<close>

theorem tools_index_counterexample:
  "map_of (headers (tools_request GET [''mcp'', ''tools''] [])) ''X-MCP-Api-Key'' = None \<and>
   serve dev_env quiet_run (tools_request GET [''mcp'', ''tools''] []) =
     ToolsListed
       \<lparr>status = Some 200,
        body = Some (JObj [(''server'', JStr ''Unified Merchant Operations Platform''),
          (''version'', JStr ''1.0.0''),
          (''tools'', JArr [JObj [(''name'', JStr ''refund_order''),
             (''description'', JStr ''Refund''), (''parameters'', JObj []),
             (''tool_class'', JStr ''Tools::RefundOrder'')]]),
          (''count'', JNum 1)]),
        response_headers = [],
        stream = \<lparr>frames = [], stream_closed = False, close_calls = 0\<rparr>\<rparr>"
  by (simp add: serve_def routes_tools_index tools_request_def dev_env_def tools_index_def
      ensure_development_environment_def performed_def fresh_response_def tool_listing_def)

lemma handle_tool_call_closed:
  "stream_closed (fst (handle_tool_call env s tool_name parameters)) = stream_closed s"
  "close_calls (fst (handle_tool_call env s tool_name parameters)) = close_calls s"
  by (simp_all add: handle_tool_call_def write_sse_event_simps Let_def split: sum.splits)

lemma handle_resource_query_closed:
  "stream_closed (fst (handle_resource_query env s resource_uri parameters)) = stream_closed s"
  "close_calls (fst (handle_resource_query env s resource_uri parameters)) = close_calls s"
  by (simp_all add: handle_resource_query_def write_sse_event_simps split: sum.splits)

lemma run_steps_no_close:
  "StreamClose \<notin> set sts \<Longrightarrow>
   stream_closed (fst (run_steps env sts end s)) = stream_closed s \<and>
   close_calls (fst (run_steps env sts end s)) = close_calls s"
proof (induction env sts "end" s rule: run_steps.induct)
  case (2 env tool_name parameters rest e s)
  obtain s' r where h: "handle_tool_call env s tool_name parameters = (s', r)"
    by (cases "handle_tool_call env s tool_name parameters")
  with handle_tool_call_closed [of env s tool_name parameters]
  have s': "stream_closed s' = stream_closed s" "close_calls s' = close_calls s" by simp_all
  show ?case
  proof (cases r)
    case (Inl e')
    with h s' show ?thesis by simp
  next
    case (Inr v)
    from "2.IH" [OF h [symmetric] Inr] "2.prems" h Inr s' show ?thesis by simp
  qed
next
  case (3 env resource_uri parameters rest e s)
  obtain s' r where h: "handle_resource_query env s resource_uri parameters = (s', r)"
    by (cases "handle_resource_query env s resource_uri parameters")
  with handle_resource_query_closed [of env s resource_uri parameters]
  have s': "stream_closed s' = stream_closed s" "close_calls s' = close_calls s" by simp_all
  show ?case
  proof (cases r)
    case (Inl e')
    with h s' show ?thesis by simp
  next
    case (Inr v)
    from "3.IH" [OF h [symmetric] Inr] "3.prems" h Inr s' show ?thesis by simp
  qed
next
  case (4 env error_message rest e s)
  then show ?case by (simp add: handle_protocol_error_def write_sse_event_simps)
next
  case (5 env frame rest e s)
  then show ?case by (auto simp: stream_write_def)
qed simp_all

lemma rescue_stream_closed:
  "stream_closed (fst (rescue_stream env s raised)) = stream_closed s"
  "close_calls (fst (rescue_stream env s raised)) = close_calls s"
  by (simp_all add: rescue_stream_def write_sse_event_simps split: option.splits)

lemma ensure_closed_simps:
  "stream_closed (ensure_closed s)"
  "close_calls (ensure_closed s) = (if stream_closed s then close_calls s else close_calls s + 1)"
  "ensure_closed (ensure_closed s) = ensure_closed s"
  by (simp_all add: ensure_closed_def stream_close_def)

lemma stream_action_closed: "stream_closed (fst (stream_action env run s))"
  by (simp add: stream_action_def ensure_closed_simps split: prod.splits)

lemma stream_action_one_close:
  assumes "StreamClose \<notin> set (steps run)" and "\<not> stream_closed s"
  shows "close_calls (fst (stream_action env run s)) = close_calls s + 1"
proof -
  let ?s1 = "write_sse_event s (Some ''connected'') (connected_data env) None"
  obtain s2 raised where h: "handle_stream env run ?s1 = (s2, raised)"
    by (cases "handle_stream env run ?s1")
  obtain s3 propagated where r: "rescue_stream env s2 raised = (s3, propagated)"
    by (cases "rescue_stream env s2 raised")
  from run_steps_no_close [OF assms(1), of env "ending run" ?s1] h assms(2)
  have "\<not> stream_closed s2" "close_calls s2 = close_calls s"
    by (simp_all add: handle_stream_def write_sse_event_simps)
  with rescue_stream_closed [of env s2 raised] r
  have "\<not> stream_closed s3" "close_calls s3 = close_calls s" by simp_all
  with h r show ?thesis by (simp add: stream_action_def ensure_closed_simps)
qed

section \<open>Properties of the connection manager and of closing\<close>

text \<open>
  Claim C7 fails on the code. A first call whose attempt opens the connection and then fails
  in \<^verbatim>\<open>client.listTools()\<close> leaves that connection open (nothing closes it) and resets the
  marker; the next call opens a second connection. Two connections are established and
  none is closed.
\<close>

theorem leaked_connection:
  "manager_run [Calls 1, Settles listing_fails, Calls 2, Settles all_well] =
     \<lparr>mcpClient = Some 1, connectionPromise = Some 1, attempts = 2, established = [0, 1],
      closed_clients = [], waiting = [],
      returned = [(1, Inl ''Failed to connect to MCP server: Error: Request timed out''),
                  (2, Inr 1)]\<rparr>"
  by (simp add: manager_run_def module_loaded_def getMcpClient_def settled_def
      initializeMcpClient_def listing_fails_def all_well_def)

lemma clients_of_simps [simp]:
  "clients_of [] = []"
  "clients_of (xs @ ys) = clients_of xs @ clients_of ys"
  "clients_of [(caller, Inr client)] = [client]"
  "clients_of [(caller, Inl error)] = []"
  by (simp_all add: clients_of_def)

lemma clients_of_Inl [simp]: "clients_of (map (\<lambda>w. (fst w, Inl e)) ws) = []"
  by (induction ws) (simp_all add: clients_of_def)

lemma clients_of_Inr: "set (clients_of (map (\<lambda>w. (fst w, Inr c)) ws)) \<subseteq> {c}"
  by (induction ws) (simp_all add: clients_of_def)

lemma initializeMcpClient_client:
  "initializeMcpClient ienv promise = (Inr client, opened) \<Longrightarrow> client = promise"
  by (auto simp: initializeMcpClient_def split: if_splits option.splits sum.splits)

lemma single_flight_getMcpClient:
  "single_flight m \<Longrightarrow> single_flight (getMcpClient caller m)"
  by (auto simp: single_flight_def getMcpClient_def clients_returned_def
      split: option.splits)

lemma single_flight_settled:
  assumes "single_flight m"
  shows "single_flight (settled ienv m)"
proof (cases "connectionPromise m")
  case None
  with assms show ?thesis by (simp add: settled_def)
next
  case (Some promise)
  show ?thesis
  proof (cases "mcpClient m")
    case (Some client)
    with assms \<open>connectionPromise m = Some promise\<close> show ?thesis by (simp add: settled_def)
  next
    case None
    obtain outcome opened where i: "initializeMcpClient ienv promise = (outcome, opened)"
      by (cases "initializeMcpClient ienv promise")
    from assms None \<open>connectionPromise m = Some promise\<close>
    have w: "filter (\<lambda>w. snd w \<noteq> promise) (waiting m) = []"
      and r: "clients_returned m = []"
      by (auto simp: single_flight_def filter_empty_conv)
    show ?thesis
    proof (cases outcome)
      case (Inl e)
      with i None \<open>connectionPromise m = Some promise\<close> w r show ?thesis
        by (simp add: settled_def single_flight_def clients_returned_def)
    next
      case (Inr client)
      with i have "client = promise" by (simp add: initializeMcpClient_client)
      with Inr i None \<open>connectionPromise m = Some promise\<close> w r clients_of_Inr show ?thesis
        by (simp add: settled_def single_flight_def clients_returned_def)
    qed
  qed
qed

lemma single_flight_fold:
  "single_flight m \<Longrightarrow> \<not> list_ex is_Closes events \<Longrightarrow>
   single_flight (fold manager_step events m)"
proof (induction events arbitrary: m)
  case Nil
  then show ?case by simp
next
  case (Cons event events)
  from Cons.prems have "single_flight (manager_step event m)"
    by (cases event) (simp_all add: single_flight_getMcpClient single_flight_settled)
  with Cons show ?case by simp
qed

text \<open>
  What holds of \<^verbatim>\<open>getMcpClient\<close> as long as nobody closes the connection: every client handed
  to a caller is the one client of the module, every waiting caller awaits the promise
  in flight, and a call that finds a promise starts no attempt.
\<close>

theorem one_client_for_all_callers:
  assumes "\<not> list_ex is_Closes events"
  shows "(\<forall>client\<in>set (clients_returned (manager_run events)).
            mcpClient (manager_run events) = Some client) \<and>
         (\<forall>w\<in>set (waiting (manager_run events)).
            connectionPromise (manager_run events) = Some (snd w) \<and>
            mcpClient (manager_run events) = None) \<and>
         (connectionPromise (manager_run events) \<noteq> None \<longrightarrow>
            attempts (getMcpClient caller (manager_run events)) = attempts (manager_run events))"
proof -
  have "single_flight module_loaded"
    by (simp add: single_flight_def module_loaded_def clients_returned_def)
  from single_flight_fold [OF this assms] have sf: "single_flight (manager_run events)"
    by (simp add: manager_run_def)
  then show ?thesis
    by (cases "mcpClient (manager_run events)")
      (auto simp: single_flight_def getMcpClient_def split: option.splits)
qed

theorem one_client_for_all_callers_witness:
  "\<not> list_ex is_Closes [Calls 1, Calls 2, Settles all_well, Calls 3] \<and>
   manager_run [Calls 1, Calls 2, Settles all_well, Calls 3] =
     \<lparr>mcpClient = Some 0, connectionPromise = Some 0, attempts = 1, established = [0],
      closed_clients = [], waiting = [],
      returned = [(1, Inr 0), (2, Inr 0), (3, Inr 0)]\<rparr> \<and>
   attempts (getMcpClient 4 (manager_run [Calls 1, Calls 2, Settles all_well, Calls 3])) = 1"
proof -
  let ?events = "[Calls 1, Calls 2, Settles all_well, Calls 3]"
  have n: "\<not> list_ex is_Closes ?events" by simp
  have r: "manager_run ?events =
     \<lparr>mcpClient = Some 0, connectionPromise = Some 0, attempts = 1, established = [0],
      closed_clients = [], waiting = [],
      returned = [(1, Inr 0), (2, Inr 0), (3, Inr 0)]\<rparr>"
    by (simp add: manager_run_def module_loaded_def getMcpClient_def settled_def
        initializeMcpClient_def all_well_def)
  from one_client_for_all_callers [OF n, of 4] r
  have "attempts (getMcpClient 4 (manager_run ?events)) = 1" by simp
  with n r show ?thesis by simp
qed

text \<open>
  Claim C8. The \<^verbatim>\<open>ensure\<close> clause of \<^verbatim>\<open>stream\<close> closes the stream exactly when it is still open:
  carried out on a closed stream it changes nothing, so carrying it out twice is the same
  as once. Whatever the protocol handler did and however it ended, the action leaves the
  stream closed, and when the handler did not close it itself, exactly one close was
  carried out. On the client side, after \<^verbatim>\<open>closeMcpClient\<close> has closed the connection a second
  call closes nothing and changes nothing.
\<close>

theorem close_is_idempotent:
  "ensure_closed (ensure_closed s) = ensure_closed s \<and>
   stream_closed (ensure_closed s) \<and>
   close_calls (ensure_closed s) = (if stream_closed s then close_calls s else close_calls s + 1) \<and>
   stream_closed (fst (stream_action env run s)) \<and>
   (StreamClose \<notin> set (steps run) \<and> \<not> stream_closed s \<longrightarrow>
      close_calls (fst (stream_action env run s)) = close_calls s + 1) \<and>
   closeMcpClient close_error (snd (closeMcpClient None m)) = (None, snd (closeMcpClient None m)) \<and>
   mcpClient (snd (closeMcpClient None m)) = None \<and>
   closed_clients (snd (closeMcpClient None m)) =
     (case mcpClient m of None \<Rightarrow> closed_clients m | Some client \<Rightarrow> closed_clients m @ [client])"
proof (intro conjI impI)
  show "closeMcpClient close_error (snd (closeMcpClient None m)) = (None, snd (closeMcpClient None m))"
    and "mcpClient (snd (closeMcpClient None m)) = None"
    and "closed_clients (snd (closeMcpClient None m)) =
     (case mcpClient m of None \<Rightarrow> closed_clients m | Some client \<Rightarrow> closed_clients m @ [client])"
    by (simp_all add: closeMcpClient_def split: option.splits)
qed (simp_all add: ensure_closed_simps stream_action_closed stream_action_one_close)

theorem close_is_idempotent_witness:
  "StreamClose \<notin> set (steps \<lparr>steps = [ToolCall ''refund_order'' (JObj [])], ending = Some timed_out\<rparr>) \<and>
   \<not> stream_closed open_stream \<and>
   stream_closed (fst (stream_action dev_env
      \<lparr>steps = [ToolCall ''refund_order'' (JObj [])], ending = Some timed_out\<rparr> open_stream)) \<and>
   close_calls (fst (stream_action dev_env
      \<lparr>steps = [ToolCall ''refund_order'' (JObj [])], ending = Some timed_out\<rparr> open_stream)) = 1 \<and>
   closeMcpClient None (snd (closeMcpClient None connected_manager))
     = (None, snd (closeMcpClient None connected_manager)) \<and>
   closed_clients (snd (closeMcpClient None connected_manager)) = [0]"
proof -
  let ?run = "\<lparr>steps = [ToolCall ''refund_order'' (JObj [])], ending = Some timed_out\<rparr>"
  have a: "StreamClose \<notin> set (steps ?run)" by simp
  have b: "\<not> stream_closed open_stream" by (simp add: open_stream_def)
  note t = close_is_idempotent [where s = open_stream and env = dev_env and run = ?run
      and close_error = None and m = connected_manager]
  from t a b have "close_calls (fst (stream_action dev_env ?run open_stream))
      = close_calls open_stream + 1" by blast
  then have c: "close_calls (fst (stream_action dev_env ?run open_stream)) = 1"
    by (simp add: open_stream_def)
  from t have d: "stream_closed (fst (stream_action dev_env ?run open_stream))" by blast
  from t have e: "closeMcpClient None (snd (closeMcpClient None connected_manager))
     = (None, snd (closeMcpClient None connected_manager))" by blast
  from t have "closed_clients (snd (closeMcpClient None connected_manager)) =
     (case mcpClient connected_manager of None \<Rightarrow> closed_clients connected_manager
      | Some client \<Rightarrow> closed_clients connected_manager @ [client])" by blast
  then have f: "closed_clients (snd (closeMcpClient None connected_manager)) = [0]"
    by (simp add: connected_manager_def)
  from a b c d e f show ?thesis by blast
qed

section \<open>Properties of the tools\<close>

lemma runtime_error_standard [simp]: "is_StandardError (exn_class (runtime_error msg))"
  by (simp add: runtime_error_def)






















end
